(* ===== verification/Prelude.thy ===== *)
theory Prelude
  imports Main "HOL-Library.Word"
begin

text \<open>
  Shared vocabulary of the development: the C integer types of the sources as words,
  the layout constants of the headers (\<open>ip.h\<close>, \<open>ethernet.h\<close>; these files are not
  part of the repository's sources: the header length and protocol numbers are the IPv6
  and IANA values the specification refers to, the 1500-byte packet maximum is the
  Ethernet MTU, assumed since the specification gives no value),
  a byte-addressed model of the stack buffers that \<open>ip.c\<close> fills with \<open>memcpy\<close>
  and shifts with \<open>memmove\<close>, with every out-of-bounds access written as a
  \<open>fault\<close>, and the big- and little-endian byte encodings that \<open>htons\<close>,
  \<open>htonl\<close> and a \<open>uint16_t\<close> load perform.
\<close>

unbundle bit_operations_syntax

section \<open>C integer types\<close>

type_synonym byte = "8 word"
type_synonym u16 = "16 word"
type_synonym u32 = "32 word"
type_synonym size_t = "64 word"

text \<open>Byte arrays that are passed by pointer (addresses, payloads) are byte lists.\<close>

type_synonym bytes = "byte list"

named_theorems mem_simps "read/write laws of the byte-addressed buffer model"
named_theorems enc_simps "laws of the network byte order encodings"

section \<open>Layout constants of the headers\<close>

definition IP_ADDR_LEN :: nat where
  "IP_ADDR_LEN = 16"

definition ETH_ADDR_LEN :: nat where
  "ETH_ADDR_LEN = 6"

definition IP_HEADER_LEN :: nat where
  "IP_HEADER_LEN = 40"

definition IP_PACKET_MAX_LEN :: nat where
  "IP_PACKET_MAX_LEN = 1500"

definition IP_DATA_MAX_LEN :: nat where
  "IP_DATA_MAX_LEN = IP_PACKET_MAX_LEN - IP_HEADER_LEN"

definition IP_PROTOCOL_TCP :: int where
  "IP_PROTOCOL_TCP = 6"

definition IP_PROTOCOL_UDP :: int where
  "IP_PROTOCOL_UDP = 17"

lemmas ip_consts [simp] = IP_ADDR_LEN_def ETH_ADDR_LEN_def IP_HEADER_LEN_def
  IP_PACKET_MAX_LEN_def IP_DATA_MAX_LEN_def IP_PROTOCOL_TCP_def IP_PROTOCOL_UDP_def

section \<open>The session\<close>

text \<open>
  \<open>session_t\<close> (declared in \<open>net.h\<close>): the link handle, the interface's link
  address, the source network address, the port and the protocol number stored by
  \<open>net_init\<close>.
\<close>

record session =
  session_id :: int
  src_addr :: bytes
  src_ip :: bytes
  port :: u16
  protocol :: int

section \<open>Faults\<close>

text \<open>
  Undefined behaviour of the C code is not a value of the program: the model stops with
  a fault instead. \<open>Overrun_read\<close> is a read past the end of an object (a
  \<open>memcpy\<close>/\<open>memmove\<close> source, the frame handed to the link),
  \<open>Overrun_write\<close> a write past the end of one, \<open>Invalid_free\<close> a \<open>free\<close> of
  a pointer that is not a live allocation.
\<close>

datatype fault = Overrun_read | Overrun_write | Invalid_free

text \<open>Sequencing of fallible steps: the first fault ends the computation.\<close>

definition ebind :: "'e + 'a \<Rightarrow> ('a \<Rightarrow> 'e + 'b) \<Rightarrow> 'e + 'b" where
  "ebind r f = (case r of Inl e \<Rightarrow> Inl e | Inr a \<Rightarrow> f a)"

lemma ebind_simps [simp]:
  "ebind (Inl e) f = Inl e"
  "ebind (Inr a) f = f a"
  by (simp_all add: ebind_def)

lemma ebind_eq_Inr:
  "ebind r f = Inr b \<longleftrightarrow> (\<exists>a. r = Inr a \<and> f a = Inr b)"
  by (cases r) (simp_all add: ebind_def)

lemma map_sum_eq_Inr: "map_sum f g z = Inr y \<longleftrightarrow> (\<exists>x. z = Inr x \<and> y = g x)"
  by (cases z) auto

section \<open>Byte-addressed buffers\<close>

text \<open>
  A stack buffer is a function from byte offsets to bytes; its initial content is
  whatever the stack held (an argument of the operations that declare the buffer), and
  its size is checked at every access.
\<close>

type_synonym mem = "nat \<Rightarrow> byte"

definition mem_write :: "mem \<Rightarrow> nat \<Rightarrow> bytes \<Rightarrow> mem" where
  "mem_write m off bs = (\<lambda>i. if off \<le> i \<and> i < off + length bs then bs ! (i - off) else m i)"

definition mem_read :: "mem \<Rightarrow> nat \<Rightarrow> nat \<Rightarrow> bytes" where
  "mem_read m off n = map (\<lambda>i. m (off + i)) [0..<n]"

text \<open>
  \<open>memcpy (buf + dst, src, n)\<close> into a buffer of \<open>cap\<close> bytes, the source an array of
  which \<open>src\<close> lists the valid bytes.
\<close>

definition memcpy_to :: "nat \<Rightarrow> mem \<Rightarrow> nat \<Rightarrow> bytes \<Rightarrow> nat \<Rightarrow> fault + mem" where
  "memcpy_to cap m dst src n =
     (if length src < n then Inl Overrun_read
      else if cap < dst + n then Inl Overrun_write
      else Inr (mem_write m dst (take n src)))"

text \<open>
  \<open>memmove (buf + dst, buf + src, n)\<close> inside one buffer of \<open>cap\<close> bytes. Only the
  bytes accessed are checked: a move of no bytes touches none.
\<close>

definition memmove_in :: "nat \<Rightarrow> mem \<Rightarrow> nat \<Rightarrow> nat \<Rightarrow> nat \<Rightarrow> fault + mem" where
  "memmove_in cap m dst src n =
     (if n = 0 then Inr m
      else if cap < src + n then Inl Overrun_read
      else if cap < dst + n then Inl Overrun_write
      else Inr (mem_write m dst (mem_read m src n)))"

lemma length_mem_read [simp, mem_simps]: "length (mem_read m off n) = n"
  by (simp add: mem_read_def)

lemma nth_mem_read [simp, mem_simps]: "i < n \<Longrightarrow> mem_read m off n ! i = m (off + i)"
  by (simp add: mem_read_def)

lemma mem_read_0 [simp, mem_simps]: "mem_read m off 0 = []"
  by (simp add: mem_read_def)

lemma mem_read_add [mem_simps]:
  "mem_read m off (a + b) = mem_read m off a @ mem_read m (off + a) b"
proof (rule nth_equalityI)
  fix i assume "i < length (mem_read m off (a + b))"
  then show "mem_read m off (a + b) ! i = (mem_read m off a @ mem_read m (off + a) b) ! i"
    by (simp add: nth_append add.assoc)
qed simp

lemma mem_read_Suc [mem_simps]: "mem_read m off (Suc n) = m off # mem_read m (Suc off) n"
  by (rule nth_equalityI) (simp_all add: nth_Cons split: nat.split)

lemma mem_write_in [mem_simps]:
  "off \<le> i \<Longrightarrow> i < off + length bs \<Longrightarrow> mem_write m off bs i = bs ! (i - off)"
  by (simp add: mem_write_def)

lemma mem_write_out [mem_simps]:
  "i < off \<or> off + length bs \<le> i \<Longrightarrow> mem_write m off bs i = m i"
  by (auto simp add: mem_write_def)

lemma mem_write_Nil [simp, mem_simps]: "mem_write m off [] = m"
  by (rule ext) (auto simp add: mem_write_def)

lemma mem_write_read_same [simp, mem_simps]: "mem_write m off (mem_read m off n) = m"
  by (rule ext) (auto simp add: mem_write_def)

lemma mem_read_write_same [simp, mem_simps]:
  "mem_read (mem_write m off bs) off (length bs) = bs"
  by (rule nth_equalityI) (simp_all add: mem_write_def)

lemma mem_read_write_prefix [mem_simps]:
  "n \<le> length bs \<Longrightarrow> mem_read (mem_write m off bs) off n = take n bs"
  by (rule nth_equalityI) (simp_all add: mem_write_def)

lemma mem_read_write_cover [mem_simps]:
  "a \<le> off \<Longrightarrow> off + length bs \<le> a + n \<Longrightarrow>
   mem_read (mem_write m off bs) a n =
     mem_read m a (off - a) @ bs @ mem_read m (off + length bs) (a + n - (off + length bs))"
proof (rule nth_equalityI)
  fix i
  assume "a \<le> off" "off + length bs \<le> a + n" "i < length (mem_read (mem_write m off bs) a n)"
  then show "mem_read (mem_write m off bs) a n ! i =
     (mem_read m a (off - a) @ bs @ mem_read m (off + length bs) (a + n - (off + length bs))) ! i"
    by (auto simp add: mem_write_def nth_append add.commute)
qed simp

lemma mem_read_write_inside [mem_simps]:
  "off \<le> a \<Longrightarrow> a + n \<le> off + length bs \<Longrightarrow>
   mem_read (mem_write m off bs) a n = take n (drop (a - off) bs)"
  by (rule nth_equalityI) (auto simp add: mem_write_def)

lemma mem_read_write_disj [mem_simps]:
  "off + n \<le> off' \<or> off' + length bs \<le> off \<Longrightarrow>
   mem_read (mem_write m off' bs) off n = mem_read m off n"
  by (rule nth_equalityI) (auto simp add: mem_write_def)

lemma mem_read_take [mem_simps]: "k \<le> n \<Longrightarrow> mem_read m off k = take k (mem_read m off n)"
  by (rule nth_equalityI) simp_all

section \<open>Header lengths in size_t arithmetic\<close>

text \<open>
  Both headers are 40 bytes; \<open>40 + d\<close> in \<open>size_t\<close> wraps only for lengths near
  \<open>2^64\<close>.
\<close>

lemma unat_hdr_plus:
  "unat (40 + d :: size_t) = (40 + unat d) mod 2 ^ 64"
  by (simp add: unat_word_ariths)

lemma unat_hdr_plus_small:
  "unat d \<le> IP_DATA_MAX_LEN \<Longrightarrow> unat (40 + d :: size_t) = 40 + unat d"
  by (simp add: unat_hdr_plus)

text \<open>The complement of a 16-bit word, read as a number.\<close>

lemma unat_not_u16: "unat (NOT (w :: u16)) = 0xFFFF - unat w"
proof -
  have n: "NOT w = -1 - w" by (simp add: not_eq_complement)
  have "w \<le> -1" by (rule word_order.extremum)
  then have "unat (-1 - w) = unat (-1 :: u16) - unat w" by (rule unat_sub)
  then show ?thesis by (simp add: n unsigned_minus_1_eq_mask mask_eq_exp_minus_1)
qed

section \<open>Network and host byte order\<close>

text \<open>
  \<open>htons\<close>/\<open>htonl\<close> followed by a store put the most significant byte first in
  memory, whatever the host. A \<open>uint16_t\<close> loaded from memory on the little-endian
  hosts the code targets reads the first byte as the low one.
\<close>

definition htons_bytes :: "u16 \<Rightarrow> bytes" where
  "htons_bytes x = [ucast (drop_bit 8 x), ucast x]"

definition htonl_bytes :: "u32 \<Rightarrow> bytes" where
  "htonl_bytes x =
     [ucast (drop_bit 24 x), ucast (drop_bit 16 x), ucast (drop_bit 8 x), ucast x]"

definition load_le16 :: "mem \<Rightarrow> nat \<Rightarrow> u16" where
  "load_le16 m off = ucast (m off) + 256 * ucast (m (Suc off))"

lemma length_htons_bytes [simp, enc_simps]: "length (htons_bytes x) = 2"
  by (simp add: htons_bytes_def)

lemma length_htonl_bytes [simp, enc_simps]: "length (htonl_bytes x) = 4"
  by (simp add: htonl_bytes_def)

end
