(* ===== verification/Packet.thy ===== *)
theory Packet
  imports Prelude
begin

text \<open>
  The packet codec of \<open>src/src/ip.c\<close>: the layout of \<open>ip_packet_t\<close> (a packed
  union whose \<open>version\<close> byte aliases the first byte of \<open>flow\<close>), the header
  construction at the start of \<open>ip_send\<close>, and \<open>ip_to_hw\<close>. The construction is
  modelled as the sequence of stores the code performs, into a stack buffer of
  \<open>IP_PACKET_MAX_LEN\<close> bytes whose prior content is arbitrary; \<open>ip_header\<close> is the
  layout the stores are meant to produce, and \<open>ip_build_layout\<close> shows they do.
\<close>

section \<open>Field offsets of the packed header\<close>

text \<open>
  \<open>flow\<close> (4 bytes, \<open>version\<close> aliasing its first byte), \<open>payload_length\<close> (2),
  \<open>next_header\<close> (1), \<open>hop_limit\<close> (1), \<open>src_ip\<close> and \<open>dst_ip\<close>
  (\<open>IP_ADDR_LEN\<close> each), then \<open>data\<close>.
\<close>

definition OFF_PAYLOAD_LENGTH :: nat where "OFF_PAYLOAD_LENGTH = 4"
definition OFF_NEXT_HEADER :: nat where "OFF_NEXT_HEADER = 6"
definition OFF_HOP_LIMIT :: nat where "OFF_HOP_LIMIT = 7"
definition OFF_SRC_IP :: nat where "OFF_SRC_IP = 8"
definition OFF_DST_IP :: nat where "OFF_DST_IP = OFF_SRC_IP + IP_ADDR_LEN"
definition OFF_DATA :: nat where "OFF_DATA = OFF_DST_IP + IP_ADDR_LEN"

lemmas ip_offsets [simp] = OFF_PAYLOAD_LENGTH_def OFF_NEXT_HEADER_def OFF_HOP_LIMIT_def
  OFF_SRC_IP_def OFF_DST_IP_def OFF_DATA_def

lemma OFF_DATA_header_len: "OFF_DATA = IP_HEADER_LEN"
  by simp

section \<open>Header construction\<close>

text \<open>
  Lines 46--54 of \<open>ip_send\<close>: \<open>flow = htonl(0)\<close>, \<open>version = 0x60\<close>,
  \<open>payload_length = htons(data_len)\<close> (the \<open>size_t\<close> length converted to
  \<open>uint16_t\<close>), \<open>next_header\<close>, \<open>hop_limit = 64\<close>, then three \<open>memcpy\<close>s.
  The payload length is the already clamped \<open>data_len\<close>.
\<close>

definition ip_build :: "mem \<Rightarrow> session \<Rightarrow> bytes \<Rightarrow> byte \<Rightarrow> bytes \<Rightarrow> size_t \<Rightarrow> fault + mem" where
  "ip_build packet s dst_ip proto data data_len =
     (let p1 = mem_write packet 0 (htonl_bytes 0);
          p2 = mem_write p1 0 [0x60];
          p3 = mem_write p2 OFF_PAYLOAD_LENGTH (htons_bytes (ucast data_len));
          p4 = mem_write p3 OFF_NEXT_HEADER [proto];
          p5 = mem_write p4 OFF_HOP_LIMIT [64]
      in ebind (memcpy_to IP_PACKET_MAX_LEN p5 OFF_SRC_IP (src_ip s) IP_ADDR_LEN)
           (\<lambda>p6. ebind (memcpy_to IP_PACKET_MAX_LEN p6 OFF_DST_IP dst_ip IP_ADDR_LEN)
           (\<lambda>p7. memcpy_to IP_PACKET_MAX_LEN p7 OFF_DATA data (unat data_len))))"

text \<open>
  \<open>ip_to_hw\<close> ignores the destination and always yields the IPv6 all-nodes multicast
  prefix \<open>33:33:00:00:00:00\<close> with status 0.
\<close>

definition ip_to_hw :: "bytes \<Rightarrow> int \<times> bytes" where
  "ip_to_hw ip_addr = (0, take ETH_ADDR_LEN [0x33, 0x33, 0, 0, 0, 0])"

section \<open>The intended layout\<close>

definition ip_header :: "bytes \<Rightarrow> bytes \<Rightarrow> byte \<Rightarrow> u16 \<Rightarrow> bytes" where
  "ip_header src dst nh len = [0x60, 0, 0, 0] @ htons_bytes len @ [nh, 64] @ src @ dst"

lemma length_ip_header [simp]:
  "length (ip_header src dst nh len) = 8 + length src + length dst"
  by (simp add: ip_header_def)

text \<open>Well-formed arguments: both addresses have their 16 bytes, the payload its bytes.\<close>

definition build_args_ok :: "session \<Rightarrow> bytes \<Rightarrow> bytes \<Rightarrow> size_t \<Rightarrow> bool" where
  "build_args_ok s dst_ip data data_len \<longleftrightarrow>
     IP_ADDR_LEN \<le> length (src_ip s) \<and> IP_ADDR_LEN \<le> length dst_ip \<and>
     unat data_len \<le> length data \<and> unat data_len \<le> IP_DATA_MAX_LEN"

section \<open>The stores produce the layout\<close>

text \<open>
  With well-formed arguments, the header construction of \<open>ip_send\<close> cannot fault, and the first \<open>IP_HEADER_LEN + data_len\<close> bytes of the packet buffer are
  the header (version nibble 6, traffic class and flow 0, payload length in network
  byte order, next header, hop limit 64, source and destination addresses) followed by
  the payload, whatever the buffer held before.
\<close>

lemma ip_build_layout:
  assumes "build_args_ok s dst_ip data n"
  shows "\<exists>p. ip_build m s dst_ip proto data n = Inr p \<and>
     mem_read p 0 (IP_HEADER_LEN + unat n) =
       ip_header (take IP_ADDR_LEN (src_ip s)) (take IP_ADDR_LEN dst_ip) proto (ucast n) @
       take (unat n) data"
  using assms
  by (simp add: build_args_ok_def ip_build_def memcpy_to_def Let_def mem_read_write_cover
      mem_read_write_inside ip_header_def htonl_bytes_def min_def)

section \<open>Example values\<close>

text \<open>
  A session with source address \<open>fe80::1\<close> and the destination \<open>2001:db8::1\<close>, used
  by the examples of the theories.
\<close>

definition example_session :: session where
  "example_session = \<lparr>session_id = 3, src_addr = [2, 0, 0, 0, 0, 1],
     src_ip = [0xFE, 0x80, 0, 0, 0, 0, 0, 0, 0, 0, 0, 0, 0, 0, 0, 1],
     port = 80, protocol = IP_PROTOCOL_TCP\<rparr>"

definition example_dst :: bytes where
  "example_dst = [0x20, 0x01, 0x0D, 0xB8, 0, 0, 0, 0, 0, 0, 0, 0, 0, 0, 0, 1]"

end
