(* ===== verification/Transmit.thy ===== *)
theory Transmit
  imports Packet
begin

text \<open>
  The segmented transmitter, \<open>ip_send\<close> of \<open>src/src/ip.c\<close>: clamp the length,
  build the packet (\<open>Packet.ip_build\<close>), resolve the link address
  (\<open>Packet.ip_to_hw\<close>), then the \<open>do \<dots> while\<close> loop that hands
  \<open>IP_HEADER_LEN + data_left\<close> bytes of the packet buffer to \<open>eth_send\<close> and, after
  a partial send, moves the unsent payload to the front of the data area. The link is
  external: a function of its own state, the destination link address and the frame,
  returning its new state and the byte count \<open>eth_send\<close> reports. \<open>size_t\<close>
  arithmetic is kept at 64 bits, so \<open>sent - IP_HEADER_LEN\<close> wraps as in C.
  The loop need not end (a link that keeps reporting exactly the header length makes no
  progress), so it is a \<open>partial_function (option)\<close>: \<open>None\<close> is divergence.
\<close>

type_synonym 'l eth_send = "'l \<Rightarrow> bytes \<Rightarrow> bytes \<Rightarrow> 'l \<times> size_t"

text \<open>
  The loop's variables: the packet buffer, \<open>data_left\<close>, the link's state, and the
  calls made to the link so far (frame handed over, count reported), in order.
\<close>

record 'l tx =
  tx_packet :: mem
  data_left :: size_t
  link :: 'l
  calls :: "(bytes \<times> size_t) list"

section \<open>One iteration of the loop\<close>

text \<open>
  Lines 64--73: the call to \<open>eth_send\<close> (reading \<open>packet_len\<close> bytes of the buffer,
  a fault if that passes its end), \<open>data_sent = sent - IP_HEADER_LEN\<close>,
  \<open>data_left -= data_sent\<close> and, when \<open>data_sent\<close> is non-zero,
  \<open>memmove(packet.data, packet.data + sent, data_left)\<close>. The result is the new state
  and \<open>sent\<close>, which the loop condition reads.
\<close>

definition ip_send_body :: "'l eth_send \<Rightarrow> bytes \<Rightarrow> 'l tx \<Rightarrow> fault + ('l tx \<times> size_t)" where
  "ip_send_body eth_send dst_hw st =
     (let packet_len = of_nat IP_HEADER_LEN + data_left st in
      if IP_PACKET_MAX_LEN < unat packet_len then Inl Overrun_read
      else
        let frame = mem_read (tx_packet st) 0 (unat packet_len);
            (l', sent) = eth_send (link st) dst_hw frame;
            data_sent = sent - of_nat IP_HEADER_LEN;
            left = data_left st - data_sent
        in ebind (if data_sent \<noteq> 0
                  then memmove_in IP_PACKET_MAX_LEN (tx_packet st) OFF_DATA (OFF_DATA + unat sent)
                         (unat left)
                  else Inr (tx_packet st))
             (\<lambda>p. Inr (st\<lparr>tx_packet := p, data_left := left, link := l',
                         calls := calls st @ [(frame, sent)]\<rparr>, sent)))"

section \<open>The loop\<close>

text \<open>Lines 62--75: repeat the body while \<open>sent != 0 && data_left != 0\<close>.\<close>

partial_function (option) ip_send_loop ::
  "'l eth_send \<Rightarrow> bytes \<Rightarrow> 'l tx \<Rightarrow> (fault + 'l tx) option" where
  "ip_send_loop eth_send dst_hw st =
     (case ip_send_body eth_send dst_hw st of
        Inl e \<Rightarrow> Some (Inl e)
      | Inr (st', sent) \<Rightarrow>
          if sent \<noteq> 0 \<and> data_left st' \<noteq> 0 then ip_send_loop eth_send dst_hw st'
          else Some (Inr st'))"

section \<open>ip_send\<close>

text \<open>
  Lines 39--78. The result is the link's final state, the value \<open>ip_send\<close> returns
  (\<open>data_len\<close> when \<open>data_left\<close> reached 0, else 0) and the calls made to the link.
  \<open>packet\<close> is the prior content of the stack buffer.
\<close>

definition ip_send ::
  "'l eth_send \<Rightarrow> 'l \<Rightarrow> mem \<Rightarrow> session \<Rightarrow> bytes \<Rightarrow> byte \<Rightarrow> bytes \<Rightarrow> size_t \<Rightarrow>
   (fault + ('l \<times> size_t \<times> (bytes \<times> size_t) list)) option" where
  "ip_send eth_send l packet s dst_ip proto data data_len0 =
     (let data_len = min data_len0 (of_nat IP_DATA_MAX_LEN) in
      case ip_build packet s dst_ip proto data data_len of
        Inl e \<Rightarrow> Some (Inl e)
      | Inr p \<Rightarrow>
          (case ip_to_hw dst_ip of (r, dst_hw) \<Rightarrow>
             if r \<noteq> 0 then Some (Inr (l, 0, []))
             else map_option
                    (map_sum id (\<lambda>st. (link st, if data_left st = 0 then data_len else 0, calls st)))
                    (ip_send_loop eth_send dst_hw
                       \<lparr>tx_packet = p, data_left = data_len, link = l, calls = []\<rparr>)))"

declare ip_send_loop.simps [code]

text \<open>The frame \<open>ip_send\<close> is meant to hand to the link: header, then payload.\<close>

definition sent_frame :: "session \<Rightarrow> bytes \<Rightarrow> byte \<Rightarrow> bytes \<Rightarrow> size_t \<Rightarrow> bytes" where
  "sent_frame s dst_ip proto data n =
     ip_header (take IP_ADDR_LEN (src_ip s)) (take IP_ADDR_LEN dst_ip) proto (ucast n) @ take (unat n) data"

text \<open>The frame the next iteration hands to the link.\<close>

definition frame_of :: "'l tx \<Rightarrow> bytes" where
  "frame_of st = mem_read (tx_packet st) 0 (unat (of_nat IP_HEADER_LEN + data_left st))"

text \<open>
  A link that makes progress: every call either fails (reports 0) or sends the header and
  at least one payload byte, and never reports more than it was given.
\<close>

definition link_progresses :: "'l eth_send \<Rightarrow> bool" where
  "link_progresses eth \<longleftrightarrow>
     (\<forall>l hw f. snd (eth l hw f) = 0 \<or>
        (of_nat IP_HEADER_LEN < snd (eth l hw f) \<and> unat (snd (eth l hw f)) \<le> length f))"

text \<open>
  The loop invariant behind the header claim: the payload still fits the data area, the
  header bytes of the buffer are \<open>H\<close>, and every frame handed to the link so far
  starts with \<open>H\<close>.
\<close>

definition hdr_kept :: "bytes \<Rightarrow> 'l tx \<Rightarrow> bool" where
  "hdr_kept H st \<longleftrightarrow>
     unat (data_left st) \<le> IP_DATA_MAX_LEN \<and> mem_read (tx_packet st) 0 IP_HEADER_LEN = H \<and>
     (\<forall>(f, c) \<in> set (calls st). take IP_HEADER_LEN f = H)"

section \<open>Iterations of the loop\<close>

lemma ip_send_body_Inr:
  assumes "ip_send_body eth hw st = Inr (st', sent)"
  shows "unat (40 + data_left st) \<le> IP_PACKET_MAX_LEN"
    and "eth (link st) hw (frame_of st) = (link st', sent)"
    and "data_left st' = data_left st - (sent - 40)"
    and "calls st' = calls st @ [(frame_of st, sent)]"
  using assms
  by (auto simp add: ip_send_body_def frame_of_def Let_def ebind_eq_Inr
      split: prod.splits if_splits)

lemma data_sent_progress:
  assumes "(40::size_t) < sent" and "unat sent \<le> unat ((40::size_t) + d)"
  shows "unat (d - (sent - (40::size_t))) < unat d" and "unat (d - (sent - (40::size_t))) = unat d + 40 - unat sent"
proof -
  have d: "unat d < 2 ^ 64" using unsigned_less [of d] by simp
  have s40: "40 < unat sent" using assms(1) by (simp add: word_less_nat_alt)
  have nov: "unat ((40::size_t) + d) = 40 + unat d"
  proof (rule ccontr)
    assume ne: "unat ((40::size_t) + d) \<noteq> 40 + unat d"
    have "\<not> 40 + unat d < 2 ^ 64"
    proof
      assume "40 + unat d < 2 ^ 64"
      then have "unat ((40::size_t) + d) = 40 + unat d" by (simp add: unat_hdr_plus)
      with ne show False ..
    qed
    then have "unat ((40::size_t) + d) = 40 + unat d - 2 ^ 64"
      using d by (simp add: unat_hdr_plus le_mod_geq)
    then have "unat ((40::size_t) + d) < 40" using d by simp
    with assms(2) s40 show False by simp
  qed
  have ds: "unat (sent - (40::size_t)) = unat sent - 40"
    using assms(1) by (simp add: unat_sub)
  have le: "sent - (40::size_t) \<le> d"
    using assms(2) nov ds s40 by (simp add: word_le_nat_alt)
  have "unat (d - (sent - (40::size_t))) = unat d - (unat sent - 40)"
    using le ds by (simp add: unat_sub)
  then show "unat (d - (sent - (40::size_t))) < unat d" and "unat (d - (sent - (40::size_t))) = unat d + 40 - unat sent"
    using s40 assms(2) nov by simp_all
qed

lemma ip_send_loop_terminates:
  assumes "link_progresses eth"
  shows "ip_send_loop eth hw st \<noteq> None"
proof (induction "unat (data_left st)" arbitrary: st rule: less_induct)
  case less
  show ?case
  proof (cases "ip_send_body eth hw st")
    case (Inl e)
    then show ?thesis by (simp add: ip_send_loop.simps [of eth hw st])
  next
    case (Inr r)
    obtain st' sent where r: "r = (st', sent)" by (cases r)
    show ?thesis
    proof (cases "sent \<noteq> 0 \<and> data_left st' \<noteq> 0")
      case True
      have body: "ip_send_body eth hw st = Inr (st', sent)" using Inr r by simp
      have eth: "eth (link st) hw (frame_of st) = (link st', sent)"
        using body by (rule ip_send_body_Inr)
      have "snd (eth (link st) hw (frame_of st)) = 0 \<or>
          (of_nat IP_HEADER_LEN < snd (eth (link st) hw (frame_of st)) \<and>
           unat (snd (eth (link st) hw (frame_of st))) \<le> length (frame_of st))"
        using assms unfolding link_progresses_def by blast
      with True eth have "(40::size_t) < sent" "unat sent \<le> length (frame_of st)"
        by simp_all
      then have "unat (data_left st - (sent - 40)) < unat (data_left st)"
        by (intro data_sent_progress(1)) (simp_all add: frame_of_def)
      then have "unat (data_left st') < unat (data_left st)"
        by (simp add: ip_send_body_Inr(3) [OF body])
      then have "ip_send_loop eth hw st' \<noteq> None" by (rule less)
      with True show ?thesis by (simp add: ip_send_loop.simps [of eth hw st] Inr r)
    next
      case False
      then show ?thesis using False by (auto simp add: ip_send_loop.simps [of eth hw st] Inr r)
    qed
  qed
qed


lemma ip_send_body_header_only:
  assumes "snd (eth (link st) hw (frame_of st)) = of_nat IP_HEADER_LEN"
    and "unat (data_left st) \<le> IP_DATA_MAX_LEN"
  shows "\<exists>st'. ip_send_body eth hw st = Inr (st', of_nat IP_HEADER_LEN) \<and> data_left st' = data_left st"
  using assms
  by (auto simp add: ip_send_body_def frame_of_def Let_def unat_hdr_plus_small split: prod.splits)

lemma ip_send_loop_header_only_diverges:
  assumes hdr_only: "\<forall>l f. snd (eth l hw f) = of_nat IP_HEADER_LEN"
    and "data_left st \<noteq> 0" and "unat (data_left st) \<le> IP_DATA_MAX_LEN"
  shows "ip_send_loop eth hw st = None"
proof (rule ccontr)
  assume "ip_send_loop eth hw st \<noteq> None"
  then obtain r where ret: "ip_send_loop eth hw st = Some r" by blast
  have "(\<forall>l f. snd (eth l hw f) = of_nat IP_HEADER_LEN) \<longrightarrow> data_left st \<noteq> 0 \<longrightarrow>
        unat (data_left st) \<le> IP_DATA_MAX_LEN \<longrightarrow> False"
  proof (rule ip_send_loop.raw_induct [where P = "\<lambda>e h s r.
      (\<forall>l f. snd (e l h f) = of_nat IP_HEADER_LEN) \<longrightarrow> data_left s \<noteq> 0 \<longrightarrow>
      unat (data_left s) \<le> IP_DATA_MAX_LEN \<longrightarrow> False", OF _ ret])
    fix f :: "'a eth_send \<Rightarrow> bytes \<Rightarrow> 'a tx \<Rightarrow> (fault + 'a tx) option"
      and e h s r
    assume IH: "\<And>e h s r. f e h s = Some r \<Longrightarrow> (\<forall>l f. snd (e l h f) = of_nat IP_HEADER_LEN) \<longrightarrow>
        data_left s \<noteq> 0 \<longrightarrow> unat (data_left s) \<le> IP_DATA_MAX_LEN \<longrightarrow> False"
      and eq: "(case ip_send_body e h s of Inl e \<Rightarrow> Some (Inl e)
         | Inr (st', sent) \<Rightarrow> if sent \<noteq> 0 \<and> data_left st' \<noteq> 0 then f e h st' else Some (Inr st')) = Some r"
    show "(\<forall>l f. snd (e l h f) = of_nat IP_HEADER_LEN) \<longrightarrow> data_left s \<noteq> 0 \<longrightarrow>
        unat (data_left s) \<le> IP_DATA_MAX_LEN \<longrightarrow> False"
    proof (intro impI)
      assume h: "\<forall>l f. snd (e l h f) = of_nat IP_HEADER_LEN" and nz: "data_left s \<noteq> 0"
        and le: "unat (data_left s) \<le> IP_DATA_MAX_LEN"
      obtain s' where body: "ip_send_body e h s = Inr (s', of_nat IP_HEADER_LEN)"
        and dl: "data_left s' = data_left s"
        using ip_send_body_header_only [of e s h] h le by blast
      from eq body dl nz have "f e h s' = Some r" by simp
      from IH [OF this] h nz le dl show False by simp
    qed
  qed
  with assms show False by blast
qed

section \<open>A link that takes whole frames\<close>

lemma unat_of_nat_hdr_plus:
  "unat d \<le> IP_DATA_MAX_LEN \<Longrightarrow> (of_nat (IP_HEADER_LEN + unat d) :: size_t) - 40 = d"
  by simp

lemma ip_send_body_all_sent:
  assumes "unat (data_left st) \<le> IP_DATA_MAX_LEN"
    and "eth (link st) hw (frame_of st) = (l', of_nat (IP_HEADER_LEN + unat (data_left st)))"
  shows "ip_send_body eth hw st =
           Inr (st\<lparr>data_left := 0, link := l',
                   calls := calls st @ [(frame_of st, of_nat (IP_HEADER_LEN + unat (data_left st)))]\<rparr>,
                of_nat (IP_HEADER_LEN + unat (data_left st)))"
  using assms
  by (simp add: ip_send_body_def frame_of_def Let_def unat_hdr_plus_small memmove_in_def)


lemma length_sent_frame:
  "build_args_ok s dst_ip data n \<Longrightarrow> length (sent_frame s dst_ip proto data n) = IP_HEADER_LEN + unat n"
  by (simp add: sent_frame_def build_args_ok_def)

text \<open>
  With well-formed arguments the packet is built without fault, the first frame handed
  to the link is \<open>sent_frame\<close>, and \<open>ip_send\<close> is the loop started on it.
\<close>

lemma ip_send_start:
  assumes ok: "build_args_ok s dst_ip data (min n (of_nat IP_DATA_MAX_LEN))"
  shows "\<exists>p. frame_of \<lparr>tx_packet = p, data_left = min n (of_nat IP_DATA_MAX_LEN), link = l, calls = []\<rparr> =
             sent_frame s dst_ip proto data (min n (of_nat IP_DATA_MAX_LEN)) \<and>
           ip_send eth l m s dst_ip proto data n =
             map_option (map_sum id (\<lambda>st. (link st,
                 if data_left st = 0 then min n (of_nat IP_DATA_MAX_LEN) else 0, calls st)))
               (ip_send_loop eth (snd (ip_to_hw dst_ip))
                  \<lparr>tx_packet = p, data_left = min n (of_nat IP_DATA_MAX_LEN), link = l, calls = []\<rparr>)"
proof -
  let ?n = "min n (of_nat IP_DATA_MAX_LEN) :: size_t"
  obtain p where build: "ip_build m s dst_ip proto data ?n = Inr p"
    and lay: "mem_read p 0 (IP_HEADER_LEN + unat ?n) = sent_frame s dst_ip proto data ?n"
    using ip_build_layout [OF ok] unfolding sent_frame_def by blast
  have small: "unat ?n \<le> IP_DATA_MAX_LEN" using ok by (simp add: build_args_ok_def)
  have "frame_of \<lparr>tx_packet = p, data_left = ?n, link = l, calls = []\<rparr> = sent_frame s dst_ip proto data ?n"
    using lay small by (simp add: frame_of_def unat_hdr_plus_small)
  moreover have "ip_send eth l m s dst_ip proto data n =
             map_option (map_sum id (\<lambda>st. (link st, if data_left st = 0 then ?n else 0, calls st)))
               (ip_send_loop eth (snd (ip_to_hw dst_ip)) \<lparr>tx_packet = p, data_left = ?n, link = l, calls = []\<rparr>)"
    using build by (simp add: ip_send_def ip_to_hw_def Let_def del: ip_consts)
  ultimately show ?thesis by blast
qed

text \<open>
  Claim C1. When the link takes the whole frame in its first call, \<open>ip_send\<close> makes
  exactly one call, hands the link the header followed by the payload clamped to
  \<open>IP_DATA_MAX_LEN\<close> bytes, and returns the clamped length (not the requested one).
\<close>

theorem ip_send_one_frame:
  assumes ok: "build_args_ok s dst_ip data (min n (of_nat IP_DATA_MAX_LEN))"
    and link: "eth l (snd (ip_to_hw dst_ip)) (sent_frame s dst_ip proto data (min n (of_nat IP_DATA_MAX_LEN))) =
               (l', of_nat (IP_HEADER_LEN + unat (min n (of_nat IP_DATA_MAX_LEN))))"
  shows "ip_send eth l m s dst_ip proto data n =
           Some (Inr (l', min n (of_nat IP_DATA_MAX_LEN),
             [(sent_frame s dst_ip proto data (min n (of_nat IP_DATA_MAX_LEN)),
               of_nat (IP_HEADER_LEN + unat (min n (of_nat IP_DATA_MAX_LEN))))]))"
proof -
  let ?n = "min n (of_nat IP_DATA_MAX_LEN) :: size_t"
  obtain p where build: "ip_build m s dst_ip proto data ?n = Inr p"
    and lay: "mem_read p 0 (IP_HEADER_LEN + unat ?n) = sent_frame s dst_ip proto data ?n"
    using ip_build_layout [OF ok] unfolding sent_frame_def by blast
  let ?st = "\<lparr>tx_packet = p, data_left = ?n, link = l, calls = []\<rparr>"
  have small: "unat ?n \<le> IP_DATA_MAX_LEN" using ok by (simp add: build_args_ok_def)
  have fr: "frame_of ?st = sent_frame s dst_ip proto data ?n"
    using lay small by (simp add: frame_of_def unat_hdr_plus_small)
  have body: "ip_send_body eth (snd (ip_to_hw dst_ip)) ?st =
     Inr (?st\<lparr>data_left := 0, link := l',
            calls := [(sent_frame s dst_ip proto data ?n, of_nat (IP_HEADER_LEN + unat ?n))]\<rparr>,
          of_nat (IP_HEADER_LEN + unat ?n))"
    using ip_send_body_all_sent [of ?st eth "snd (ip_to_hw dst_ip)" l'] small link fr by simp
  show ?thesis
    using build body by (simp add: ip_send_def ip_to_hw_def ip_send_loop.simps Let_def)
qed

lemma ip_send_one_frame_witness:
  "build_args_ok example_session example_dst [7, 8, 9] (min 3 (of_nat IP_DATA_MAX_LEN)) \<and>
   ip_send (\<lambda>l hw f. (Suc l, of_nat (length f))) 0 (\<lambda>_. 0) example_session
     example_dst 6 [7, 8, 9] 3 =
   Some (Inr (1, 3, [([0x60, 0, 0, 0, 0, 3, 6, 64] @ src_ip example_session @ example_dst @ [7, 8, 9], 43)]))"
  using ip_send_one_frame [of example_session example_dst "[7, 8, 9]" 3
      "\<lambda>l hw f. (Suc l, of_nat (length f))" 0 6 1 "\<lambda>_. 0"]
  by (simp add: build_args_ok_def sent_frame_def ip_header_def htons_bytes_def ip_to_hw_def
      example_session_def example_dst_def)

section \<open>Partial sends: the offset defect\<close>

lemma ip_send_body_memmove:
  assumes "ip_send_body eth hw st = Inr (st', sent)" and "sent \<noteq> 40"
  shows "tx_packet st' = mem_write (tx_packet st) OFF_DATA
           (mem_read (tx_packet st) (OFF_DATA + unat sent) (unat (data_left st')))"
  using assms
  by (auto simp add: ip_send_body_def Let_def ebind_eq_Inr memmove_in_def split: prod.splits if_splits)

text \<open>
  Claim C2. After an iteration in which the link reported more than the header sent,
  the unsent payload that the \<open>memmove\<close> brings to the front of the data area is read
  from offset \<open>OFF_DATA + sent\<close> of the packet: the slide uses the total count
  \<open>sent\<close> (header included) instead of the payload count \<open>data_sent\<close>, so it
  starts \<open>IP_HEADER_LEN\<close> bytes past the first unsent payload byte.
\<close>

theorem ip_send_body_partial_shift:
  assumes "ip_send_body eth hw st = Inr (st', sent)"
    and "of_nat IP_HEADER_LEN < sent"
  shows "mem_read (tx_packet st') OFF_DATA (unat (data_left st')) =
         mem_read (tx_packet st) (OFF_DATA + unat sent) (unat (data_left st'))"
proof -
  have "sent \<noteq> 40" using assms(2) by auto
  then show ?thesis using ip_send_body_memmove [OF assms(1)] by (simp add: mem_read_write_prefix)
qed

lemma ip_send_body_partial_shift_witness:
  "\<exists>st'. ip_send_body (\<lambda>l hw f. (l, 42)) []
          \<lparr>tx_packet = mem_write (\<lambda>_. 0) 40 [1, 2, 3, 4, 5], data_left = 5, link = (), calls = []\<rparr> =
          Inr (st', 42) \<and> of_nat IP_HEADER_LEN < (42::size_t) \<and>
        mem_read (tx_packet st') OFF_DATA (unat (data_left st')) = [0, 0, 0]"
proof -
  let ?st = "\<lparr>tx_packet = mem_write (\<lambda>_. 0) 40 [1, 2, 3, 4, 5], data_left = 5, link = (), calls = []\<rparr>"
  obtain st' where body: "ip_send_body (\<lambda>l hw f. (l, 42)) [] ?st = Inr (st', 42)"
    and dl: "data_left st' = 3"
    by (simp add: ip_send_body_def Let_def memmove_in_def)
  have "mem_read (tx_packet st') OFF_DATA (unat (data_left st')) =
        mem_read (tx_packet ?st) (OFF_DATA + unat (42::size_t)) (unat (data_left st'))"
    using ip_send_body_partial_shift [OF body] by simp
  then have "mem_read (tx_packet st') OFF_DATA (unat (data_left st')) = [0, 0, 0]"
    by (simp add: dl mem_read_def mem_write_def upt_rec)
  with body show ?thesis by simp
qed

section \<open>Termination and divergence\<close>

text \<open>
  Claim C4. With a link that never reports a count strictly between 0 and the header
  length and never more than it was given, \<open>ip_send\<close> always returns (\<open>data_left\<close>
  decreases in every iteration that does not end the loop).
\<close>

theorem ip_send_terminates:
  assumes "link_progresses eth"
  shows "ip_send eth l m s dst_ip proto data n \<noteq> None"
proof (cases "ip_build m s dst_ip proto data (min n (of_nat IP_DATA_MAX_LEN))")
  case (Inl e)
  then show ?thesis by (simp add: ip_send_def)
next
  case (Inr p)
  have "ip_send_loop eth [0x33, 0x33, 0, 0, 0, 0]
          \<lparr>tx_packet = p, data_left = min n (of_nat IP_DATA_MAX_LEN), link = l, calls = []\<rparr> \<noteq> None"
    using assms by (rule ip_send_loop_terminates)
  with Inr show ?thesis by (auto simp add: ip_send_def ip_to_hw_def)
qed

lemma ip_send_terminates_witness:
  "link_progresses (\<lambda>l hw f. (l, if length f \<le> 41 then 0 else 41 :: size_t)) \<and>
   ip_send (\<lambda>l hw f. (l, if length f \<le> 41 then 0 else 41 :: size_t)) () (\<lambda>_. 0) example_session
     example_dst 6 [1, 2, 3] 3 \<noteq> None"
proof -
  have p: "link_progresses (\<lambda>l hw f. (l, if length f \<le> 41 then 0 else 41 :: size_t))"
    by (simp add: link_progresses_def)
  then show ?thesis
    using ip_send_terminates [OF p, of "()" "\<lambda>_. 0" example_session example_dst 6 "[1, 2, 3]" 3]
    by blast
qed

text \<open>
  Claim C5. A link that keeps reporting exactly the header length makes no progress:
  \<open>data_sent\<close> is 0, \<open>data_left\<close> never changes and \<open>ip_send\<close> never returns
  for a non-empty payload. The loop has no retry bound.
\<close>

theorem ip_send_header_only_diverges:
  assumes hdr_only: "\<forall>l f. snd (eth l (snd (ip_to_hw dst_ip)) f) = of_nat IP_HEADER_LEN"
    and ok: "build_args_ok s dst_ip data (min n (of_nat IP_DATA_MAX_LEN))"
    and nz: "n \<noteq> 0"
  shows "ip_send eth l m s dst_ip proto data n = None"
proof -
  let ?n = "min n (of_nat IP_DATA_MAX_LEN) :: size_t"
  obtain p where build: "ip_build m s dst_ip proto data ?n = Inr p"
    using ip_build_layout [OF ok] by blast
  have small: "unat ?n \<le> IP_DATA_MAX_LEN" using ok by (simp add: build_args_ok_def)
  have "?n \<noteq> 0" using nz by (simp add: min_def)
  then have "ip_send_loop eth (snd (ip_to_hw dst_ip))
               \<lparr>tx_packet = p, data_left = ?n, link = l, calls = []\<rparr> = None"
    using hdr_only small by (intro ip_send_loop_header_only_diverges) simp_all
  with build show ?thesis by (simp add: ip_send_def ip_to_hw_def)
qed

lemma ip_send_header_only_diverges_witness:
  "(\<forall>l f. snd ((\<lambda>l hw f. (l, 40 :: size_t)) l (snd (ip_to_hw example_dst)) f) = of_nat IP_HEADER_LEN) \<and>
   build_args_ok example_session example_dst [1, 2, 3] (min 3 (of_nat IP_DATA_MAX_LEN)) \<and>
   (3 :: size_t) \<noteq> 0 \<and>
   ip_send (\<lambda>l hw f. (l, 40 :: size_t)) () (\<lambda>_. 0) example_session example_dst 6 [1, 2, 3] 3 = None"
proof -
  have h: "\<forall>l f. snd ((\<lambda>l hw f. (l, 40 :: size_t)) l (snd (ip_to_hw example_dst)) f) = of_nat IP_HEADER_LEN"
    by simp
  have ok: "build_args_ok example_session example_dst [1, 2, 3] (min 3 (of_nat IP_DATA_MAX_LEN))"
    by (simp add: build_args_ok_def example_session_def example_dst_def)
  show ?thesis using ip_send_header_only_diverges [OF h ok, of "()" "\<lambda>_. 0" 6] h ok by simp
qed

section \<open>Link failure\<close>

lemma ip_send_body_fail:
  assumes "unat (data_left st) \<le> IP_DATA_MAX_LEN"
    and "eth (link st) hw (frame_of st) = (l', 0)"
  shows "ip_send_body eth hw st =
           (if unat (data_left st) \<le> IP_PACKET_MAX_LEN - 2 * IP_HEADER_LEN
            then Inr (st\<lparr>data_left := data_left st + 40, link := l',
                          calls := calls st @ [(frame_of st, 0)]\<rparr>, 0)
            else Inl Overrun_read)"
proof -
  have "unat (data_left st + 40) = unat (data_left st) + 40"
    using assms(1) by (simp add: unat_word_ariths)
  then show ?thesis
    using assms by (simp add: ip_send_body_def frame_of_def Let_def unat_hdr_plus_small memmove_in_def)
qed

text \<open>
  Claim C6. When the link fails on the first call (reports 0), \<open>ip_send\<close> returns 0
  for payloads of at most \<open>IP_PACKET_MAX_LEN - 2 * IP_HEADER_LEN\<close> bytes; for longer
  ones the wrapped \<open>data_sent = 0 - IP_HEADER_LEN\<close> makes \<open>data_left\<close> grow by the
  header length and the \<open>memmove\<close> reads past the end of the packet buffer.
\<close>

theorem ip_send_link_fails:
  assumes ok: "build_args_ok s dst_ip data (min n (of_nat IP_DATA_MAX_LEN))"
    and fail: "eth l (snd (ip_to_hw dst_ip)) (sent_frame s dst_ip proto data (min n (of_nat IP_DATA_MAX_LEN))) = (l', 0)"
  shows "ip_send eth l m s dst_ip proto data n =
           Some (if unat (min n (of_nat IP_DATA_MAX_LEN)) \<le> IP_PACKET_MAX_LEN - 2 * IP_HEADER_LEN
                 then Inr (l', 0, [(sent_frame s dst_ip proto data (min n (of_nat IP_DATA_MAX_LEN)), 0)])
                 else Inl Overrun_read)"
proof -
  let ?n = "min n (of_nat IP_DATA_MAX_LEN) :: size_t"
  obtain p where build: "ip_build m s dst_ip proto data ?n = Inr p"
    and lay: "mem_read p 0 (IP_HEADER_LEN + unat ?n) = sent_frame s dst_ip proto data ?n"
    using ip_build_layout [OF ok] unfolding sent_frame_def by blast
  let ?st = "\<lparr>tx_packet = p, data_left = ?n, link = l, calls = []\<rparr>"
  have small: "unat ?n \<le> IP_DATA_MAX_LEN" using ok by (simp add: build_args_ok_def)
  have fr: "frame_of ?st = sent_frame s dst_ip proto data ?n"
    using lay small by (simp add: frame_of_def unat_hdr_plus_small)
  have nz: "?n + 40 \<noteq> 0"
  proof
    assume "?n + 40 = 0"
    then have "unat (?n + 40) = 0" by simp
    with small show False by (simp add: unat_word_ariths)
  qed
  have body: "ip_send_body eth (snd (ip_to_hw dst_ip)) ?st =
     (if unat ?n \<le> IP_PACKET_MAX_LEN - 2 * IP_HEADER_LEN
      then Inr (?st\<lparr>data_left := ?n + 40, link := l',
            calls := [(sent_frame s dst_ip proto data ?n, 0)]\<rparr>, 0)
      else Inl Overrun_read)"
    using ip_send_body_fail [of ?st eth "snd (ip_to_hw dst_ip)" l'] small fail fr by simp
  show ?thesis
  proof (cases "unat ?n \<le> IP_PACKET_MAX_LEN - 2 * IP_HEADER_LEN")
    case True
    with build body nz show ?thesis
      by (simp add: ip_send_def ip_to_hw_def ip_send_loop.simps Let_def)
  next
    case False
    with build body show ?thesis
      by (simp add: ip_send_def ip_to_hw_def ip_send_loop.simps Let_def)
  qed
qed

lemma ip_send_link_fails_witness:
  "build_args_ok example_session example_dst [1, 2, 3] (min 3 (of_nat IP_DATA_MAX_LEN)) \<and>
   (\<lambda>l hw f. (Suc l, 0 :: size_t)) 0 (snd (ip_to_hw example_dst))
      (sent_frame example_session example_dst 6 [1, 2, 3] (min 3 (of_nat IP_DATA_MAX_LEN))) = (1, 0) \<and>
   ip_send (\<lambda>l hw f. (Suc l, 0 :: size_t)) 0 (\<lambda>_. 0) example_session example_dst 6 [1, 2, 3] 3 =
     Some (Inr (1, 0, [(sent_frame example_session example_dst 6 [1, 2, 3] 3, 0)]))"
proof -
  have ok: "build_args_ok example_session example_dst [1, 2, 3] (min 3 (of_nat IP_DATA_MAX_LEN))"
    by (simp add: build_args_ok_def example_session_def example_dst_def)
  have f: "(\<lambda>l hw f. (Suc l, 0 :: size_t)) 0 (snd (ip_to_hw example_dst))
      (sent_frame example_session example_dst 6 [1, 2, 3] (min 3 (of_nat IP_DATA_MAX_LEN))) = (1, 0)"
    by simp
  have r: "ip_send (\<lambda>l hw f. (Suc l, 0 :: size_t)) 0 (\<lambda>_. 0) example_session example_dst 6 [1, 2, 3] 3 =
     Some (if unat (min 3 (of_nat IP_DATA_MAX_LEN) :: size_t) \<le> IP_PACKET_MAX_LEN - 2 * IP_HEADER_LEN
           then Inr (1, 0, [(sent_frame example_session example_dst 6 [1, 2, 3] (min 3 (of_nat IP_DATA_MAX_LEN)), 0)])
           else Inl Overrun_read)"
    by (rule ip_send_link_fails [of example_session example_dst "[1, 2, 3]" 3
        "\<lambda>l hw f. (Suc l, 0 :: size_t)" 0 6 1 "\<lambda>_. 0", OF ok]) simp
  have m: "min 3 (of_nat IP_DATA_MAX_LEN) = (3 :: size_t)" by simp
  have u: "unat (3 :: size_t) \<le> IP_PACKET_MAX_LEN - 2 * IP_HEADER_LEN" by simp
  from r ok f show ?thesis by (simp only: m u if_True)
qed

section \<open>The header survives every retry\<close>

lemma ip_send_body_hdr_kept:
  assumes inv: "hdr_kept H st" and body: "ip_send_body eth hw st = Inr (st', sent)"
  shows "hdr_kept H st'"
proof -
  let ?left = "data_left st - (sent - 40)"
  have dl: "unat (data_left st) \<le> IP_DATA_MAX_LEN" and hd: "mem_read (tx_packet st) 0 40 = H"
    and cs: "\<forall>(f, c) \<in> set (calls st). take 40 f = H"
    using inv by (simp_all add: hdr_kept_def)
  have fr: "take 40 (frame_of st) = H"
    using dl hd by (simp add: frame_of_def unat_hdr_plus_small mem_read_take [of 40 "40 + unat (data_left st)"])
  have st': "data_left st' = ?left" "calls st' = calls st @ [(frame_of st, sent)]"
    using body by (simp_all add: ip_send_body_Inr(3,4))
  have pk: "tx_packet st' = tx_packet st \<and> data_left st' = data_left st \<or>
        (tx_packet st' = mem_write (tx_packet st) 40 (mem_read (tx_packet st) (40 + unat sent) (unat ?left)) \<and>
         unat ?left \<le> IP_DATA_MAX_LEN)"
    using body
    by (auto simp add: ip_send_body_def Let_def ebind_eq_Inr memmove_in_def split: prod.splits if_splits)
  have "unat (data_left st') \<le> IP_DATA_MAX_LEN \<and> mem_read (tx_packet st') 0 40 = H"
    using pk hd dl st'(1) by (auto simp add: mem_read_write_disj)
  then show ?thesis using st'(2) cs fr by (simp add: hdr_kept_def)
qed

lemma ip_send_loop_hdr_kept:
  assumes ret: "ip_send_loop eth hw st = Some (Inr st')" and inv: "hdr_kept H st"
  shows "hdr_kept H st'"
proof -
  have "hdr_kept H st \<longrightarrow> (\<forall>st''. (Inr st' :: fault + 'a tx) = Inr st'' \<longrightarrow> hdr_kept H st'')"
  proof (rule ip_send_loop.raw_induct [where P = "\<lambda>(e :: 'a eth_send) (h :: bytes) (s :: 'a tx) (r :: fault + 'a tx).
      hdr_kept H s \<longrightarrow> (\<forall>st''. r = Inr st'' \<longrightarrow> hdr_kept H st'')", OF _ ret])
    fix f :: "'a eth_send \<Rightarrow> bytes \<Rightarrow> 'a tx \<Rightarrow> (fault + 'a tx) option"
      and e h s r
    assume IH: "\<And>e h s r. f e h s = Some r \<Longrightarrow> hdr_kept H s \<longrightarrow> (\<forall>st''. r = Inr st'' \<longrightarrow> hdr_kept H st'')"
      and eq: "(case ip_send_body e h s of Inl e \<Rightarrow> Some (Inl e)
         | Inr (st', sent) \<Rightarrow> if sent \<noteq> 0 \<and> data_left st' \<noteq> 0 then f e h st' else Some (Inr st')) = Some r"
    show "hdr_kept H s \<longrightarrow> (\<forall>st''. r = Inr st'' \<longrightarrow> hdr_kept H st'')"
    proof (intro impI allI)
      fix st'' assume k: "hdr_kept H s" and r: "r = Inr st''"
      show "hdr_kept H st''"
      proof (cases "ip_send_body e h s")
        case (Inl x)
        then show ?thesis using eq r by simp
      next
        case (Inr y)
        obtain s1 sent where y: "y = (s1, sent)" by (cases y)
        have k1: "hdr_kept H s1"
          using k Inr y by (intro ip_send_body_hdr_kept [of H s e h s1 sent]) simp_all
        show ?thesis
        proof (cases "sent \<noteq> 0 \<and> data_left s1 \<noteq> 0")
          case True
          then have "f e h s1 = Some r" using eq Inr y by simp
          then show ?thesis using IH k1 r by blast
        next
          case False
          then show ?thesis using eq Inr y r k1 by auto
        qed
      qed
    qed
  qed
  then show ?thesis using inv by blast
qed

text \<open>
  Claim C3. Every frame \<open>ip_send\<close> hands to the link, in every retry, starts with the
  complete header it built: the \<open>memmove\<close> after a partial send writes only the data
  area.
\<close>

theorem ip_send_frames_keep_header:
  assumes ok: "build_args_ok s dst_ip data (min n (of_nat IP_DATA_MAX_LEN))"
    and sent: "ip_send eth l m s dst_ip proto data n = Some (Inr (l', r, cs))"
  shows "\<forall>(f, c) \<in> set cs. take IP_HEADER_LEN f =
           ip_header (take IP_ADDR_LEN (src_ip s)) (take IP_ADDR_LEN dst_ip) proto (ucast (min n (of_nat IP_DATA_MAX_LEN)))"
proof -
  let ?n = "min n (of_nat IP_DATA_MAX_LEN) :: size_t"
  let ?H = "ip_header (take IP_ADDR_LEN (src_ip s)) (take IP_ADDR_LEN dst_ip) proto (ucast ?n)"
  obtain p where fr: "frame_of \<lparr>tx_packet = p, data_left = ?n, link = l, calls = []\<rparr> = sent_frame s dst_ip proto data ?n"
    and start: "ip_send eth l m s dst_ip proto data n =
             map_option (map_sum id (\<lambda>st. (link st, if data_left st = 0 then ?n else 0, calls st)))
               (ip_send_loop eth (snd (ip_to_hw dst_ip)) \<lparr>tx_packet = p, data_left = ?n, link = l, calls = []\<rparr>)"
    using ip_send_start [OF ok, of l proto eth m] by blast
  have small: "unat ?n \<le> IP_DATA_MAX_LEN" using ok by (simp add: build_args_ok_def)
  have hlen: "length ?H = 40" using ok by (simp add: build_args_ok_def)
  have "mem_read p 0 40 = take 40 (frame_of \<lparr>tx_packet = p, data_left = ?n, link = l, calls = []\<rparr>)"
    using small by (simp add: frame_of_def unat_hdr_plus_small mem_read_take [of 40 "40 + unat ?n"])
  also have "\<dots> = ?H" using fr hlen by (simp add: sent_frame_def)
  finally have "hdr_kept ?H \<lparr>tx_packet = p, data_left = ?n, link = l, calls = []\<rparr>"
    using small by (simp add: hdr_kept_def)
  moreover obtain z where z: "ip_send_loop eth (snd (ip_to_hw dst_ip)) \<lparr>tx_packet = p, data_left = ?n, link = l, calls = []\<rparr> =
      Some z" and mz: "map_sum id (\<lambda>st. (link st, if data_left st = 0 then ?n else 0, calls st)) z = Inr (l', r, cs)"
    using sent start by auto
  obtain st' where "z = Inr st'" and "calls st' = cs"
    using mz by (cases z) auto
  ultimately show ?thesis using z ip_send_loop_hdr_kept by (fastforce simp add: hdr_kept_def)
qed

lemma ip_send_frames_keep_header_witness:
  "build_args_ok example_session example_dst [1, 2, 3] (min 3 (of_nat IP_DATA_MAX_LEN)) \<and>
   ip_send (\<lambda>l hw f. (l, of_nat (min 41 (length f)))) () (\<lambda>_. 0) example_session example_dst 6 [1, 2, 3] 3 =
     Some (Inr ((), 3, [(ip_header (src_ip example_session) example_dst 6 3 @ [1, 2, 3], 41),
                         (ip_header (src_ip example_session) example_dst 6 3 @ [0, 0], 41),
                         (ip_header (src_ip example_session) example_dst 6 3 @ [0], 41)])) \<and>
   take IP_HEADER_LEN (ip_header (src_ip example_session) example_dst 6 3 @ [0]) =
     ip_header (take IP_ADDR_LEN (src_ip example_session)) (take IP_ADDR_LEN example_dst) 6
       (ucast (min 3 (of_nat IP_DATA_MAX_LEN) :: size_t))"
proof -
  have ok: "build_args_ok example_session example_dst [1, 2, 3] (min 3 (of_nat IP_DATA_MAX_LEN))"
    by (simp add: build_args_ok_def example_session_def example_dst_def)
  have snd: "ip_send (\<lambda>l hw f. (l, of_nat (min 41 (length f)))) () (\<lambda>_. 0) example_session example_dst 6 [1, 2, 3] 3 =
     Some (Inr ((), 3, [(ip_header (src_ip example_session) example_dst 6 3 @ [1, 2, 3], 41),
                         (ip_header (src_ip example_session) example_dst 6 3 @ [0, 0], 41),
                         (ip_header (src_ip example_session) example_dst 6 3 @ [0], 41)]))"
    by (simp add: ip_send_def ip_build_def memcpy_to_def Let_def ip_to_hw_def ip_send_loop.simps
        ip_send_body_def memmove_in_def mem_read_def mem_write_def htonl_bytes_def ip_header_def
        htons_bytes_def upt_rec example_session_def example_dst_def)
  show ?thesis
    using ip_send_frames_keep_header [OF ok snd] ok snd by simp
qed

text \<open>
  Claim C7. Whatever the link does, a returning \<open>ip_send\<close> reports either 0 or the
  clamped length: there is no partial-success value.
\<close>

theorem ip_send_all_or_nothing:
  assumes "ip_send eth l m s dst_ip proto data n = Some (Inr (l', r, cs))"
  shows "r = 0 \<or> r = min n (of_nat IP_DATA_MAX_LEN)"
  using assms
  by (auto simp add: ip_send_def Let_def ip_to_hw_def map_sum_eq_Inr split: sum.splits prod.splits if_splits)

lemma ip_send_all_or_nothing_witness:
  "ip_send (\<lambda>l hw f. (l, 0)) () (\<lambda>_. 0) example_session example_dst 6 [1, 2, 3] 3 = Some (Inr ((), 0,
     [(ip_header (src_ip example_session) example_dst 6 3 @ [1, 2, 3], 0)])) \<and>
   ((0 :: size_t) = 0 \<or> (0 :: size_t) = min 3 (of_nat IP_DATA_MAX_LEN))"
proof -
  have snd: "ip_send (\<lambda>l hw f. (l, 0)) () (\<lambda>_. 0) example_session example_dst 6 [1, 2, 3] 3 = Some (Inr ((), 0,
     [(ip_header (src_ip example_session) example_dst 6 3 @ [1, 2, 3], 0)]))"
    by (simp add: ip_send_def ip_build_def memcpy_to_def Let_def ip_to_hw_def ip_send_loop.simps
        ip_send_body_def memmove_in_def mem_read_def mem_write_def htonl_bytes_def ip_header_def
        htons_bytes_def upt_rec example_session_def example_dst_def)
  show ?thesis using ip_send_all_or_nothing [OF snd] snd by simp
qed

end
