(* ===== verification/Checksum.thy ===== *)
theory Checksum
  imports Packet
begin

text \<open>
  The checksum engine of \<open>src/src/ip.c\<close>: the \<open>pseudo_packet_t\<close> union (source and
  destination address, 32-bit upper-layer length in network byte order, three zero
  bytes, next header, payload, overlaid by an array of \<open>uint16_t\<close>),
  \<open>add_with_carry\<close> (16-bit addition with end-around carry) and \<open>ip_chksum\<close>, which
  fills the pseudo packet on the stack and folds \<open>add_with_carry\<close> over its first
  \<open>(PSEUDO_PACKET_HEADER_LEN + data_len) / 2\<close> words into a \<open>uint32_t\<close>
  accumulator. The words are read in host order; the model fixes a little-endian host.
  \<open>oc_sum\<close> is the one's complement sum the algorithm is meant to compute.
\<close>

section \<open>The pseudo packet\<close>

definition PSEUDO_PACKET_HEADER_LEN :: nat where
  "PSEUDO_PACKET_HEADER_LEN = 2 * IP_ADDR_LEN + 8"

text \<open>The size of the union: \<open>(PSEUDO_PACKET_HEADER_LEN + IP_DATA_MAX_LEN) / 2\<close> words.\<close>

definition PSEUDO_PACKET_LEN :: nat where
  "PSEUDO_PACKET_LEN = 2 * ((PSEUDO_PACKET_HEADER_LEN + IP_DATA_MAX_LEN) div 2)"

lemmas pseudo_consts [simp] = PSEUDO_PACKET_HEADER_LEN_def PSEUDO_PACKET_LEN_def

text \<open>
  Lines 124--130 of \<open>ip_chksum\<close>: two address copies, \<open>htonl(data_len)\<close> (the
  \<open>size_t\<close> converted to \<open>uint32_t\<close>), three zero bytes, the next header and the
  payload copy, which is not clamped.
\<close>

definition pseudo_build :: "mem \<Rightarrow> session \<Rightarrow> bytes \<Rightarrow> byte \<Rightarrow> bytes \<Rightarrow> size_t \<Rightarrow> fault + mem" where
  "pseudo_build packet s dst_ip proto data data_len =
     ebind (memcpy_to PSEUDO_PACKET_LEN packet 0 (src_ip s) IP_ADDR_LEN)
       (\<lambda>p1. ebind (memcpy_to PSEUDO_PACKET_LEN p1 IP_ADDR_LEN dst_ip IP_ADDR_LEN)
       (\<lambda>p2. let p3 = mem_write p2 (2 * IP_ADDR_LEN) (htonl_bytes (ucast data_len));
                  p4 = mem_write p3 (2 * IP_ADDR_LEN + 4) (replicate 3 0);
                  p5 = mem_write p4 (2 * IP_ADDR_LEN + 7) [proto]
              in memcpy_to PSEUDO_PACKET_LEN p5 PSEUDO_PACKET_HEADER_LEN data (unat data_len)))"

section \<open>Addition with end-around carry\<close>

text \<open>
  Line 115: \<open>(acc + val) + (acc > UINT16_MAX - val ? 1 : 0)\<close>, computed in \<open>int\<close>
  and returned as \<open>uint16_t\<close>; the sum modulo \<open>2^16\<close> is the 16-bit word sum.
\<close>

definition add_with_carry :: "u16 \<Rightarrow> u16 \<Rightarrow> u16" where
  "add_with_carry acc val = acc + val + (if acc > 0xFFFF - val then 1 else 0)"

section \<open>The checksum\<close>

text \<open>\<open>packet.buffer[i]\<close>: the \<open>i\<close>-th \<open>uint16_t\<close> of the union.\<close>

definition pseudo_words :: "mem \<Rightarrow> nat \<Rightarrow> u16 list" where
  "pseudo_words p n = map (\<lambda>i. load_le16 p (2 * i)) [0..<n]"

text \<open>
  Lines 132--134: the accumulator is a \<open>uint32_t\<close>; each call truncates it to
  \<open>uint16_t\<close> and the result is widened back.
\<close>

primrec chksum_loop :: "u32 \<Rightarrow> u16 list \<Rightarrow> u32" where
  "chksum_loop acc [] = acc"
| "chksum_loop acc (w # ws) = chksum_loop (ucast (add_with_carry (ucast acc) w)) ws"

text \<open>
  Lines 121--137. \<open>~acc\<close> is taken on the 32-bit accumulator and the result is
  converted to \<open>uint16_t\<close> on return.
\<close>

definition ip_chksum :: "mem \<Rightarrow> session \<Rightarrow> bytes \<Rightarrow> byte \<Rightarrow> bytes \<Rightarrow> size_t \<Rightarrow> fault + u16" where
  "ip_chksum packet s dst_ip proto data data_len =
     ebind (pseudo_build packet s dst_ip proto data data_len)
       (\<lambda>p. let acc = chksum_loop 0
                   (pseudo_words p (unat (of_nat PSEUDO_PACKET_HEADER_LEN + data_len) div 2))
            in Inr (ucast (if NOT acc = 0 then acc else NOT acc)))"

section \<open>What the algorithm is meant to compute\<close>

text \<open>
  The 16-bit words of a byte string, first byte low (an odd trailing byte is not a
  word), the pseudo header as the specification lays it out, and the one's complement
  sum of naturals: 0 for 0, otherwise the representative in \<open>1..0xFFFF\<close>.
\<close>

fun le16_words :: "bytes \<Rightarrow> u16 list" where
  "le16_words (a # b # rest) = (ucast a + 256 * ucast b) # le16_words rest"
| "le16_words _ = []"

definition pseudo_header :: "bytes \<Rightarrow> bytes \<Rightarrow> u32 \<Rightarrow> byte \<Rightarrow> bytes" where
  "pseudo_header src dst len nh = src @ dst @ htonl_bytes len @ replicate 3 0 @ [nh]"

text \<open>The three zero bytes \<open>memset\<close> writes.\<close>

lemma replicate_3_zero [simp]: "replicate 3 (0 :: byte) = [0, 0, 0]"
  by (simp add: numeral_3_eq_3)

definition words_sum :: "bytes \<Rightarrow> nat" where
  "words_sum xs = sum_list (map unat (le16_words xs))"

definition oc_sum :: "nat \<Rightarrow> nat" where
  "oc_sum s = (if s = 0 then 0 else (s - 1) mod 0xFFFF + 1)"

definition chksum_args_ok :: "session \<Rightarrow> bytes \<Rightarrow> bytes \<Rightarrow> size_t \<Rightarrow> bool" where
  "chksum_args_ok s dst_ip data data_len \<longleftrightarrow>
     IP_ADDR_LEN \<le> length (src_ip s) \<and> IP_ADDR_LEN \<le> length dst_ip \<and>
     unat data_len \<le> length data \<and> unat data_len \<le> IP_DATA_MAX_LEN"

section \<open>The loop computes the one's complement sum\<close>

lemma oc_sum_le: "oc_sum s \<le> 0xFFFF"
proof -
  have "(s - 1) mod 0xFFFF \<le> (0xFFFE :: nat)"
    using mod_less_divisor [of "0xFFFF :: nat" "s - 1"] by linarith
  then show ?thesis by (simp add: oc_sum_def)
qed

lemma oc_sum_absorb: "oc_sum (oc_sum x + y) = oc_sum (x + y)"
proof (cases "x = 0")
  case True
  then show ?thesis by (simp add: oc_sum_def)
next
  case False
  then have "oc_sum x + y - 1 = (x - 1) mod 0xFFFF + y" by (simp add: oc_sum_def)
  moreover have "((x - 1) mod 0xFFFF + y) mod 0xFFFF = (x + y - 1) mod 0xFFFF"
    using False by (simp add: mod_add_left_eq)
  ultimately show ?thesis using False by (simp add: oc_sum_def)
qed

lemma add_with_carry_oc_sum: "unat (add_with_carry a v) = oc_sum (unat a + unat v)"
proof -
  have a: "unat a < 65536" and v: "unat v < 65536"
    using unsigned_less [of a] unsigned_less [of v] by simp_all
  have gt: "(a > 0xFFFF - v) = (unat a + unat v \<ge> 65536)"
  proof -
    have "v \<le> 0xFFFF" using v by (simp add: word_le_nat_alt)
    then have "unat (0xFFFF - v) = 65535 - unat v"
      by (simp add: unat_sub)
    then show ?thesis using a v by (simp add: word_less_nat_alt) arith
  qed
  show ?thesis
  proof (cases "unat a + unat v \<ge> 65536")
    case True
    then have "unat (add_with_carry a v) = (unat a + unat v + 1) mod 65536"
      using gt by (simp add: add_with_carry_def unat_word_ariths mod_Suc_eq)
    also have "\<dots> = unat a + unat v + 1 - 65536" using True a v by (simp add: le_mod_geq)
    also have "\<dots> = oc_sum (unat a + unat v)"
      using True a v by (simp add: oc_sum_def le_mod_geq)
    finally show ?thesis .
  next
    case False
    then have "unat (add_with_carry a v) = unat a + unat v"
      using gt by (simp add: add_with_carry_def unat_word_ariths)
    also have "\<dots> = oc_sum (unat a + unat v)"
      using False by (simp add: oc_sum_def)
    finally show ?thesis .
  qed
qed

lemma chksum_loop_oc_sum:
  "unat acc \<le> 0xFFFF \<Longrightarrow> unat (chksum_loop acc ws) = oc_sum (unat acc + sum_list (map unat ws))"
proof (induction ws arbitrary: acc)
  case Nil
  then show ?case by (simp add: oc_sum_def)
next
  case (Cons w ws)
  let ?acc' = "ucast (add_with_carry (ucast acc) w) :: u32"
  have u: "unat (ucast acc :: u16) = unat acc"
    using Cons.prems by (simp add: unsigned_ucast_eq take_bit_nat_eq_self_iff)
  have t: "take_bit 16 (unat acc) = unat acc"
    using Cons.prems by (simp add: take_bit_nat_eq_self_iff)
  have "oc_sum (unat acc + unat w) < 2 ^ 32"
    using oc_sum_le [of "unat acc + unat w"] by simp
  have "unat ?acc' = take_bit 32 (unat (add_with_carry (ucast acc) w))"
    by (simp add: unsigned_ucast_eq)
  also have "\<dots> = take_bit 32 (oc_sum (unat acc + unat w))"
    by (simp only: add_with_carry_oc_sum u)
  also have "\<dots> = oc_sum (unat acc + unat w)"
    using \<open>oc_sum (unat acc + unat w) < 2 ^ 32\<close> by (simp add: take_bit_nat_eq_self_iff)
  finally have a': "unat ?acc' = oc_sum (unat acc + unat w)" .
  have "unat ?acc' \<le> 0xFFFF" using a' oc_sum_le by simp
  then have "unat (chksum_loop ?acc' ws) = oc_sum (unat ?acc' + sum_list (map unat ws))"
    by (rule Cons.IH)
  then show ?case by (simp add: a' oc_sum_absorb add.assoc)
qed

lemma pseudo_build_layout:
  assumes "chksum_args_ok s dst_ip data n"
  shows "\<exists>p. pseudo_build m s dst_ip proto data n = Inr p \<and>
     mem_read p 0 (PSEUDO_PACKET_HEADER_LEN + unat n) =
       pseudo_header (take IP_ADDR_LEN (src_ip s)) (take IP_ADDR_LEN dst_ip) (ucast n) proto @
       take (unat n) data"
  using assms
  by (simp add: chksum_args_ok_def pseudo_build_def memcpy_to_def Let_def mem_read_write_cover
      mem_read_write_inside pseudo_header_def min_def)

lemma load_le16_words:
  "map (\<lambda>i. load_le16 m (off + 2 * i)) [0..<k] = le16_words (mem_read m off (2 * k))"
proof (induction k arbitrary: off)
  case 0
  then show ?case by simp
next
  case (Suc k)
  have "map (\<lambda>i. load_le16 m (off + 2 * i)) [0..<Suc k] =
        load_le16 m off # map (\<lambda>i. load_le16 m (Suc (Suc off) + 2 * i)) [0..<k]"
    by (simp add: upt_conv_Cons map_Suc_upt [symmetric] del: upt_Suc)
  also have "\<dots> = load_le16 m off # le16_words (mem_read m (Suc (Suc off)) (2 * k))"
    by (simp only: Suc.IH)
  also have "\<dots> = le16_words (mem_read m off (2 * Suc k))"
    by (simp add: mem_read_Suc load_le16_def)
  finally show ?case .
qed

lemma le16_words_even: "le16_words (take (2 * (length xs div 2)) xs) = le16_words xs"
  by (induction xs rule: le16_words.induct) simp_all

lemma ucast_not_u32: "(ucast (NOT acc :: u32) :: u16) = NOT (ucast acc)"
  by (rule bit_word_eqI) (simp add: bit_simps)


lemma ip_chksum_loop:
  assumes "chksum_args_ok s dst_ip data n"
  shows "ip_chksum m s dst_ip proto data n =
    Inr (ucast (NOT (chksum_loop 0 (le16_words
      (pseudo_header (take IP_ADDR_LEN (src_ip s)) (take IP_ADDR_LEN dst_ip) (ucast n) proto @
       take (unat n) data)))))"
proof -
  let ?X = "pseudo_header (take IP_ADDR_LEN (src_ip s)) (take IP_ADDR_LEN dst_ip) (ucast n) proto @
            take (unat n) data"
  obtain p where build: "pseudo_build m s dst_ip proto data n = Inr p"
    and lay: "mem_read p 0 (PSEUDO_PACKET_HEADER_LEN + unat n) = ?X"
    using pseudo_build_layout [OF assms] by blast
  have small: "unat n \<le> IP_DATA_MAX_LEN" using assms by (simp add: chksum_args_ok_def)
  have len: "length ?X = 40 + unat n"
    using assms by (simp add: chksum_args_ok_def pseudo_header_def)
  have "pseudo_words p ((40 + unat n) div 2) = le16_words (mem_read p 0 (2 * ((40 + unat n) div 2)))"
    using load_le16_words [of p 0 "(40 + unat n) div 2"] by (simp add: pseudo_words_def)
  also have "\<dots> = le16_words (take (2 * ((40 + unat n) div 2)) ?X)"
    using lay by (simp add: mem_read_take [of "2 * ((40 + unat n) div 2)" "40 + unat n"])
  also have "\<dots> = le16_words ?X"
    using le16_words_even [of ?X] len by simp
  finally have w: "pseudo_words p ((40 + unat n) div 2) = le16_words ?X" .
  have acc: "unat (chksum_loop 0 (le16_words ?X)) \<le> 0xFFFF"
    using chksum_loop_oc_sum [of 0 "le16_words ?X"] oc_sum_le by simp
  have "NOT (chksum_loop 0 (le16_words ?X)) \<noteq> 0"
  proof
    assume "NOT (chksum_loop 0 (le16_words ?X)) = 0"
    then have "chksum_loop 0 (le16_words ?X) = - 1" by (metis bit.double_compl bit.compl_zero)
    with acc show False by (simp add: unsigned_minus_1_eq_mask mask_eq_exp_minus_1)
  qed
  then show ?thesis
    using build w small by (simp add: ip_chksum_def unat_hdr_plus_small)
qed


lemma ucast_not_chksum_loop:
  "(ucast (NOT (chksum_loop 0 ws)) :: u16) = NOT (word_of_nat (oc_sum (sum_list (map unat ws))))"
proof -
  have o: "oc_sum (sum_list (map unat ws)) < 2 ^ 16"
    using oc_sum_le [of "sum_list (map unat ws)"] by simp
  have "unat (ucast (chksum_loop 0 ws) :: u16) = unat (word_of_nat (oc_sum (sum_list (map unat ws))) :: u16)"
    using chksum_loop_oc_sum [of 0 ws] o
    by (simp add: unsigned_ucast_eq take_bit_nat_eq_self_iff unat_of_nat)
  then have "(ucast (chksum_loop 0 ws) :: u16) = word_of_nat (oc_sum (sum_list (map unat ws)))"
    by (simp only: word_unat_eq_iff)
  then show ?thesis by (simp add: ucast_not_u32)
qed
lemma le16_words_snoc_even: "even (length ys) \<Longrightarrow> le16_words (ys @ [x]) = le16_words ys"
  by (induction ys rule: le16_words.induct) simp_all

section \<open>Properties of ip_chksum\<close>

text \<open>
  Claim C8. For well-formed arguments, \<open>ip_chksum\<close> returns the bitwise complement of
  the one's complement sum of the 16-bit words of the pseudo header followed by the
  payload (the end-around-carry fold computes exactly that sum).
\<close>

theorem ip_chksum_ones_complement:
  assumes "chksum_args_ok s dst_ip data n"
  shows "ip_chksum m s dst_ip proto data n =
    Inr (NOT (word_of_nat (oc_sum (words_sum
      (pseudo_header (take IP_ADDR_LEN (src_ip s)) (take IP_ADDR_LEN dst_ip) (ucast n) proto @
       take (unat n) data)))))"
  using ip_chksum_loop [OF assms] by (simp add: ucast_not_chksum_loop words_sum_def)

lemma ip_chksum_ones_complement_witness:
  "chksum_args_ok example_session example_dst [1, 2, 3] 3 \<and>
   ip_chksum (\<lambda>_. 0) example_session example_dst 6 [1, 2, 3] 3 = Inr 47314"
proof -
  have ok: "chksum_args_ok example_session example_dst [1, 2, 3] 3"
    by (simp add: chksum_args_ok_def example_session_def example_dst_def)
  have "ip_chksum (\<lambda>_. 0) example_session example_dst 6 [1, 2, 3] 3 = Inr 47314"
    unfolding ip_chksum_ones_complement [OF ok]
    by (simp add: example_session_def example_dst_def pseudo_header_def htonl_bytes_def words_sum_def
        oc_sum_def)
  with ok show ?thesis by simp
qed

text \<open>
  Claim C10. When the one's complement sum is all ones, \<open>ip_chksum\<close> returns 0, not
  \<open>0xFFFF\<close>: the test \<open>~acc == 0\<close> is made on the 32-bit accumulator, whose
  complement is never 0, so the all-ones case of the specification is never taken.
\<close>

theorem ip_chksum_all_ones_gives_zero:
  assumes "chksum_args_ok s dst_ip data n"
    and "oc_sum (words_sum
      (pseudo_header (take IP_ADDR_LEN (src_ip s)) (take IP_ADDR_LEN dst_ip) (ucast n) proto @
       take (unat n) data)) = 0xFFFF"
  shows "ip_chksum m s dst_ip proto data n = Inr 0"
  using ip_chksum_loop [OF assms(1)] assms(2) by (simp add: ucast_not_chksum_loop words_sum_def)

lemma ip_chksum_all_ones_gives_zero_witness:
  "chksum_args_ok example_session example_dst [0xD3, 0xBB] 2 \<and>
   oc_sum (words_sum (pseudo_header (take IP_ADDR_LEN (src_ip example_session))
     (take IP_ADDR_LEN example_dst) (ucast (2 :: size_t)) 6 @ take (unat (2 :: size_t)) [0xD3, 0xBB])) = 0xFFFF \<and>
   ip_chksum (\<lambda>_. 0) example_session example_dst 6 [0xD3, 0xBB] 2 = Inr 0"
proof -
  have ok: "chksum_args_ok example_session example_dst [0xD3, 0xBB] 2"
    by (simp add: chksum_args_ok_def example_session_def example_dst_def)
  have s: "oc_sum (words_sum (pseudo_header (take IP_ADDR_LEN (src_ip example_session))
     (take IP_ADDR_LEN example_dst) (ucast (2 :: size_t)) 6 @ take (unat (2 :: size_t)) [0xD3, 0xBB])) = 0xFFFF"
    by (simp add: example_session_def example_dst_def pseudo_header_def htonl_bytes_def words_sum_def
        oc_sum_def)
  show ?thesis using ok s ip_chksum_all_ones_gives_zero [OF ok s] by simp
qed

text \<open>
  Claim C11. For an odd payload length the last payload byte does not enter the
  checksum: the loop runs over \<open>(PSEUDO_PACKET_HEADER_LEN + data_len) / 2\<close> whole
  words and the odd byte is not padded with zero.
\<close>

theorem ip_chksum_odd_last_byte_ignored:
  assumes ok: "chksum_args_ok s dst_ip data n" and odd: "odd (unat n)"
  shows "ip_chksum m s dst_ip proto (data[unat n - 1 := x]) n = ip_chksum m s dst_ip proto data n"
proof -
  let ?H = "pseudo_header (take IP_ADDR_LEN (src_ip s)) (take IP_ADDR_LEN dst_ip) (ucast n) proto"
  have ok': "chksum_args_ok s dst_ip (data[unat n - 1 := x]) n"
    using ok by (simp add: chksum_args_ok_def)
  have pos: "0 < unat n" using odd by (cases "unat n") simp_all
  have le: "unat n \<le> length data" using ok by (simp add: chksum_args_ok_def)
  have t1: "take (unat n) (data[unat n - 1 := x]) = take (unat n - 1) data @ [x]"
    using pos le by (intro nth_equalityI) (auto simp add: nth_append nth_list_update)
  have t2: "take (unat n) data = take (unat n - 1) data @ [data ! (unat n - 1)]"
    using pos le by (metis Suc_diff_1 Suc_le_lessD take_Suc_conv_app_nth)
  have lh: "length ?H = 40" using ok by (simp add: chksum_args_ok_def pseudo_header_def)
  have lt: "length (take (unat n - 1) data) = unat n - 1" using le by simp
  have ev: "even (length (?H @ take (unat n - 1) data))"
    using odd pos by (simp only: length_append lh lt) simp
  have "le16_words (?H @ take (unat n) (data[unat n - 1 := x])) =
        le16_words (?H @ take (unat n) data)"
    using le16_words_snoc_even [OF ev] by (simp only: t1 t2 append_assoc [symmetric])
  then show ?thesis by (simp only: ip_chksum_loop [OF ok] ip_chksum_loop [OF ok'])
qed

lemma ip_chksum_odd_last_byte_ignored_witness:
  "chksum_args_ok example_session example_dst [1, 2, 3] 3 \<and> odd (unat (3 :: size_t)) \<and>
   ip_chksum (\<lambda>_. 0) example_session example_dst 6 [1, 2, 9] 3 =
   ip_chksum (\<lambda>_. 0) example_session example_dst 6 [1, 2, 3] 3"
proof -
  have ok: "chksum_args_ok example_session example_dst [1, 2, 3] 3"
    by (simp add: chksum_args_ok_def example_session_def example_dst_def)
  have o: "odd (unat (3 :: size_t))" by simp
  show ?thesis using ip_chksum_odd_last_byte_ignored [OF ok o, of "\<lambda>_. 0" 6 9] ok o by simp
qed

text \<open>
  Claim C12. \<open>ip_chksum\<close> does not clamp its length: a payload longer than
  \<open>IP_DATA_MAX_LEN\<close> is copied past the end of the pseudo packet on the stack.
\<close>

theorem ip_chksum_payload_overflow:
  assumes "IP_ADDR_LEN \<le> length (src_ip s)" and "IP_ADDR_LEN \<le> length dst_ip"
    and "unat n \<le> length data" and "IP_DATA_MAX_LEN < unat n"
  shows "ip_chksum m s dst_ip proto data n = Inl Overrun_write"
  using assms by (simp add: ip_chksum_def pseudo_build_def memcpy_to_def Let_def)

lemma ip_chksum_payload_overflow_witness:
  "IP_ADDR_LEN \<le> length (src_ip example_session) \<and> IP_ADDR_LEN \<le> length (example_dst) \<and>
   unat (1461 :: size_t) \<le> length (replicate 1461 (0 :: byte)) \<and> IP_DATA_MAX_LEN < unat (1461 :: size_t) \<and>
   ip_chksum (\<lambda>_. 0) example_session example_dst 6 (replicate 1461 0) 1461 = Inl Overrun_write"
proof -
  have h: "IP_ADDR_LEN \<le> length (src_ip example_session)" "IP_ADDR_LEN \<le> length (example_dst)"
    "unat (1461 :: size_t) \<le> length (replicate 1461 (0 :: byte))" "IP_DATA_MAX_LEN < unat (1461 :: size_t)"
    by (simp_all add: example_session_def example_dst_def)
  show ?thesis using h ip_chksum_payload_overflow [OF h, of "\<lambda>_. 0" 6] by simp
qed

text \<open>
  Claim C13. \<open>add_with_carry\<close> is one's complement addition: its result is congruent
  to the sum of its arguments modulo \<open>0xFFFF\<close>, and it is 0 only when both
  arguments are 0.
\<close>

theorem add_with_carry_ones_complement:
  "unat (add_with_carry a v) mod 0xFFFF = (unat a + unat v) mod 0xFFFF \<and>
   (add_with_carry a v = 0 \<longleftrightarrow> a = 0 \<and> v = 0)"
proof -
  have "add_with_carry a v = 0 \<longleftrightarrow> oc_sum (unat a + unat v) = 0"
    by (metis add_with_carry_oc_sum unat_eq_zero)
  then have "add_with_carry a v = 0 \<longleftrightarrow> a = 0 \<and> v = 0"
    by (simp add: oc_sum_def unat_eq_zero)
  moreover have "oc_sum (unat a + unat v) mod 0xFFFF = (unat a + unat v) mod 0xFFFF"
    by (cases "unat a + unat v") (simp_all add: oc_sum_def mod_Suc_eq)
  ultimately show ?thesis by (simp add: add_with_carry_oc_sum)
qed

text \<open>
  Claim C9. The checksum verifies: adding the returned checksum to the words it covers
  gives the all-ones one's complement sum that a receiver checks for.
\<close>

theorem ip_chksum_verifies:
  assumes ok: "chksum_args_ok s dst_ip data n" and c: "ip_chksum m s dst_ip proto data n = Inr c"
  shows "oc_sum (words_sum
      (pseudo_header (take IP_ADDR_LEN (src_ip s)) (take IP_ADDR_LEN dst_ip) (ucast n) proto @
       take (unat n) data) + unat c) = 0xFFFF"
proof -
  let ?W = "words_sum (pseudo_header (take IP_ADDR_LEN (src_ip s)) (take IP_ADDR_LEN dst_ip) (ucast n) proto @
       take (unat n) data)"
  have le: "oc_sum ?W \<le> 0xFFFF" by (rule oc_sum_le)
  have "c = NOT (word_of_nat (oc_sum ?W))"
    using c ip_chksum_loop [OF ok] by (simp add: ucast_not_chksum_loop words_sum_def)
  then have "unat c = 0xFFFF - oc_sum ?W"
    using le by (simp add: unat_not_u16 unat_of_nat)
  then have "oc_sum (?W + unat c) = oc_sum (oc_sum ?W + (0xFFFF - oc_sum ?W))"
    by (simp add: oc_sum_absorb)
  also have "\<dots> = 0xFFFF" using le by (simp add: oc_sum_def)
  finally show ?thesis .
qed

lemma ip_chksum_verifies_witness:
  "chksum_args_ok example_session example_dst [1, 2, 3] 3 \<and>
   ip_chksum (\<lambda>_. 0) example_session example_dst 6 [1, 2, 3] 3 = Inr 47314 \<and>
   oc_sum (words_sum (pseudo_header (take IP_ADDR_LEN (src_ip example_session)) (take IP_ADDR_LEN example_dst)
     (ucast (3 :: size_t)) 6 @ take (unat (3 :: size_t)) [1, 2, 3]) + unat (47314 :: u16)) = 0xFFFF"
proof -
  have ok: "chksum_args_ok example_session example_dst [1, 2, 3] 3"
    by (simp add: chksum_args_ok_def example_session_def example_dst_def)
  have c: "ip_chksum (\<lambda>_. 0) example_session example_dst 6 [1, 2, 3] 3 = Inr 47314"
    unfolding ip_chksum_loop [OF ok] ucast_not_chksum_loop
    by (simp add: example_session_def example_dst_def pseudo_header_def htonl_bytes_def oc_sum_def)
  show ?thesis using ok c ip_chksum_verifies [OF ok c] by simp
qed

end
