(* ===== verification/Receive.thy ===== *)
theory Receive
  imports Packet
begin

text \<open>
  The receiver, \<open>ip_recv\<close> of \<open>src/src/ip.c\<close>: one call to the link's
  \<open>eth_recv\<close>, which writes a frame into the packet buffer on the stack and returns its
  length; a zero length is "no frame"; otherwise the bytes after the header are copied
  to the caller's buffer and their count returned. \<open>packet_len - IP_HEADER_LEN\<close> is
  \<open>size_t\<close> arithmetic and wraps for a frame shorter than the header. The link is a
  function of its state returning its new state and the frame; the caller's buffer has
  room for \<open>cap\<close> bytes (\<open>ip_recv\<close> is not told how many).
\<close>

type_synonym 'l eth_recv = "'l \<Rightarrow> 'l \<times> bytes"

text \<open>
  Lines 80--92. The result is the link's state, the returned length and the bytes
  written to the caller's buffer. A frame longer than the packet buffer is the link
  overrunning it.
\<close>

definition ip_recv :: "'l eth_recv \<Rightarrow> 'l \<Rightarrow> mem \<Rightarrow> nat \<Rightarrow> fault + ('l \<times> size_t \<times> bytes)" where
  "ip_recv eth_recv l packet cap =
     (case eth_recv l of (l', frame) \<Rightarrow>
        if IP_PACKET_MAX_LEN < length frame then Inl Overrun_write
        else
          let p = mem_write packet 0 frame;
              packet_len = (of_nat (length frame) :: size_t)
          in if packet_len = 0 then Inr (l', 0, [])
             else
               let data_len = packet_len - of_nat IP_HEADER_LEN
               in if IP_PACKET_MAX_LEN < OFF_DATA + unat data_len then Inl Overrun_read
                  else if cap < unat data_len then Inl Overrun_write
                  else Inr (l', data_len, mem_read p OFF_DATA (unat data_len)))"

section \<open>Frames that carry a header\<close>

lemma ip_recv_header_frame:
  assumes link: "eth l = (l', frame)"
    and lo: "IP_HEADER_LEN \<le> length frame" and hi: "length frame \<le> IP_PACKET_MAX_LEN"
  shows "ip_recv eth l m cap =
           (if cap < length frame - IP_HEADER_LEN then Inl Overrun_write
            else Inr (l', of_nat (length frame - IP_HEADER_LEN), drop IP_HEADER_LEN frame))"
proof -
  let ?k = "length frame - 40"
  have k: "unat (of_nat ?k :: size_t) = ?k"
    using hi by (simp add: unat_of_nat)
  have d: "(of_nat (length frame) :: size_t) - 40 = of_nat ?k"
    using lo by simp
  have nz: "(of_nat (length frame) :: size_t) \<noteq> 0"
  proof
    assume "(of_nat (length frame) :: size_t) = 0"
    then have "unat (of_nat (length frame) :: size_t) = 0" by simp
    with lo hi show False by (simp add: unat_of_nat)
  qed
  have r: "mem_read (mem_write m 0 frame) 40 ?k = drop 40 frame"
    using lo by (simp add: mem_read_write_inside)
  show ?thesis
    unfolding ip_recv_def using link lo hi by (simp add: Let_def k d nz r del: of_nat_diff)
qed

lemma ip_recv_frame:
  assumes link: "eth l = (l', frame)"
    and lo: "IP_HEADER_LEN \<le> length frame" and hi: "length frame \<le> IP_PACKET_MAX_LEN"
    and cap: "length frame - IP_HEADER_LEN \<le> cap"
  shows "ip_recv eth l m cap = Inr (l', of_nat (length frame - IP_HEADER_LEN), drop IP_HEADER_LEN frame)"
  using ip_recv_header_frame [of eth l l' frame m cap] link lo hi cap by simp

text \<open>
  Claim C14. A frame made of a 40-byte header and a payload that fits the packet buffer
  and the caller's buffer is returned as exactly that payload and its length: the
  receiver strips the header and nothing else.
\<close>

theorem ip_recv_strips_header:
  assumes "eth l = (l', hdr @ payload)"
    and "length hdr = IP_HEADER_LEN" and "length payload \<le> IP_DATA_MAX_LEN" and "length payload \<le> cap"
  shows "ip_recv eth l m cap = Inr (l', of_nat (length payload), payload)"
  using ip_recv_frame [of eth l l' "hdr @ payload" cap m] assms by simp

lemma ip_recv_strips_header_witness:
  "(\<lambda>l. (Suc l, replicate 40 0 @ [1, 2, 3])) 0 = (1, replicate 40 0 @ [1, 2, 3]) \<and>
   length (replicate 40 (0 :: byte)) = IP_HEADER_LEN \<and> length [1, 2, 3 :: byte] \<le> IP_DATA_MAX_LEN \<and>
   length [1, 2, 3 :: byte] \<le> 3 \<and>
   ip_recv (\<lambda>l. (Suc l, replicate 40 0 @ [1, 2, 3])) 0 (\<lambda>_. 0) 3 = Inr (1, 3, [1, 2, 3])"
  using ip_recv_strips_header [of "\<lambda>l. (Suc l, replicate 40 0 @ [1, 2, 3])" 0 1 "replicate 40 0"
      "[1, 2, 3]" 3 "\<lambda>_. 0"]
  by simp

section \<open>Short and empty frames\<close>

text \<open>
  Claim C15. A frame shorter than the header makes \<open>packet_len - IP_HEADER_LEN\<close> wrap
  to nearly \<open>2^64\<close>, and the \<open>memcpy\<close> reads past the end of the packet buffer.
\<close>

theorem ip_recv_short_frame:
  assumes "eth l = (l', frame)" and "0 < length frame" and "length frame < IP_HEADER_LEN"
  shows "ip_recv eth l m cap = Inl Overrun_read"
proof -
  have nz: "(of_nat (length frame) :: size_t) \<noteq> 0"
    using assms(2,3) by (auto simp add: word_of_nat_eq_0_iff dest: dvd_imp_le)
  have k: "unat (of_nat (length frame) :: size_t) = length frame"
    using assms(3) by (simp add: unat_of_nat)
  have "unat ((of_nat (length frame) :: size_t) - 40) = length frame + 2 ^ 64 - 40"
    using assms(3) k by (simp add: unat_sub_if_size word_size)
  then have "IP_PACKET_MAX_LEN < OFF_DATA + unat ((of_nat (length frame) :: size_t) - of_nat IP_HEADER_LEN)"
    by simp
  then show ?thesis
    using assms nz by (simp add: ip_recv_def Let_def)
qed

lemma ip_recv_short_frame_witness:
  "(\<lambda>l. (l, [1, 2, 3 :: byte])) () = ((), [1, 2, 3]) \<and> 0 < length [1, 2, 3 :: byte] \<and>
   length [1, 2, 3 :: byte] < IP_HEADER_LEN \<and>
   ip_recv (\<lambda>l. (l, [1, 2, 3])) () (\<lambda>_. 0) 1500 = Inl Overrun_read"
  using ip_recv_short_frame [of "\<lambda>l. (l, [1, 2, 3])" "()" "()" "[1, 2, 3]" "\<lambda>_. 0" 1500]
  by simp

text \<open>
  Claim C16. When the link reports no frame (length 0), \<open>ip_recv\<close> returns 0 and
  writes nothing to the caller's buffer.
\<close>

theorem ip_recv_no_frame:
  assumes "eth l = (l', [])"
  shows "ip_recv eth l m cap = Inr (l', 0, [])"
  using assms by (simp add: ip_recv_def)

lemma ip_recv_no_frame_witness:
  "(\<lambda>l. (Suc l, [])) 0 = (1, []) \<and> ip_recv (\<lambda>l. (Suc l, [])) 0 (\<lambda>_. 0) 0 = Inr (1, 0, [])"
  using ip_recv_no_frame [of "\<lambda>l. (Suc l, [])" 0 1 "\<lambda>_. 0" 0] by simp

text \<open>
  Claim C17. \<open>ip_recv\<close> is not told the size of the caller's buffer: a frame whose
  payload is longer than the buffer is copied into it whole, writing past its end.
\<close>

theorem ip_recv_overflows_buffer:
  assumes "eth l = (l', frame)"
    and "IP_HEADER_LEN \<le> length frame" and "length frame \<le> IP_PACKET_MAX_LEN"
    and "cap < length frame - IP_HEADER_LEN"
  shows "ip_recv eth l m cap = Inl Overrun_write"
  using ip_recv_header_frame [of eth l l' frame m cap] assms by simp

lemma ip_recv_overflows_buffer_witness:
  "(\<lambda>l. (l, replicate 40 0 @ [1, 2, 3])) () = ((), replicate 40 0 @ [1, 2, 3]) \<and>
   IP_HEADER_LEN \<le> length (replicate 40 (0 :: byte) @ [1, 2, 3]) \<and>
   length (replicate 40 (0 :: byte) @ [1, 2, 3]) \<le> IP_PACKET_MAX_LEN \<and>
   (2 :: nat) < length (replicate 40 (0 :: byte) @ [1, 2, 3]) - IP_HEADER_LEN \<and>
   ip_recv (\<lambda>l. (l, replicate 40 0 @ [1, 2, 3])) () (\<lambda>_. 0) 2 = Inl Overrun_write"
  using ip_recv_overflows_buffer [of "\<lambda>l. (l, replicate 40 0 @ [1, 2, 3])" "()" "()"
      "replicate 40 0 @ [1, 2, 3]" 2 "\<lambda>_. 0"]
  by simp

end
