(* ===== verification/Session.thy ===== *)
theory Session
  imports Prelude
begin

text \<open>
  The session and dispatcher layer, \<open>src/src/net.c\<close>. \<open>net_init\<close> allocates a
  \<open>session_t\<close>, opens the interface with \<open>hw_init\<close>, reads the interface's link
  address with \<open>hw_if_addr\<close>, stores the caller's address and port and maps the
  \<open>protocol_t\<close> argument to an IP protocol number; every failure after the allocation
  goes through \<open>free\<close> or \<open>net_free\<close>. \<open>net_free\<close> releases the handle with
  \<open>hw_free\<close> and frees the session. \<open>net_send\<close> and \<open>net_recv\<close> switch on the
  stored protocol against the \<open>protocol_t\<close> enumerators.

  The system state is the heap of live \<open>session_t\<close> allocations and the set of link
  handles that are open. The hardware layer and \<open>malloc\<close> are external: the outcome of
  each of their calls in one \<open>net_init\<close> is an argument (\<open>init_env\<close>). The values of
  the enumerators \<open>TCP\<close> and \<open>UDP\<close> are declared in \<open>net.h\<close>, which is not
  part of the sources, so they are a parameter (\<open>protocol_enum\<close>) too. The transport
  handlers \<open>tcp_send\<close>/\<open>tcp_recv\<close> are parameters acting on a state of their own.
\<close>

record protocol_enum =
  TCP :: int
  UDP :: int

record net_state =
  heap :: "nat \<rightharpoonup> session"
  open_links :: "int set"

text \<open>
  The outcomes of the external calls one \<open>net_init\<close> makes: the address \<open>malloc\<close>
  returns with the garbage it holds (\<open>None\<close> for \<open>NULL\<close>), the handle \<open>hw_init\<close>
  returns (\<open>-1\<close> on failure), the link address \<open>hw_if_addr\<close> writes (\<open>None\<close> when
  it returns \<open>-1\<close>) and the status \<open>hw_free\<close> returns.
\<close>

record init_env =
  malloc_result :: "(nat \<times> session) option"
  hw_init_result :: int
  if_addr_result :: "bytes option"
  hw_free_result :: int

section \<open>Teardown\<close>

text \<open>
  Lines 48--53: \<open>hw_free(session->session_id)\<close>, which releases the handle and
  returns a status, then \<open>free(session)\<close>. (Primed arguments below are the C
  parameters named like a \<open>session_t\<close> field.)
\<close>

definition net_free :: "int \<Rightarrow> net_state \<Rightarrow> nat \<Rightarrow> fault + (net_state \<times> int)" where
  "net_free hw_free_r st a =
     (case heap st a of
        None \<Rightarrow> Inl Invalid_free
      | Some s \<Rightarrow> Inr (st\<lparr>open_links := open_links st - {session_id s}, heap := (heap st)(a := None)\<rparr>,
                      hw_free_r))"

section \<open>Initialisation\<close>

text \<open>
  Lines 40--46: the \<open>switch\<close> on the requested protocol, on a session whose other
  fields are set. \<open>None\<close> is the \<open>default\<close> branch.
\<close>

definition resolve_protocol :: "protocol_enum \<Rightarrow> int \<Rightarrow> int option" where
  "resolve_protocol pe p =
     (if p = TCP pe then Some IP_PROTOCOL_TCP
      else if p = UDP pe then Some IP_PROTOCOL_UDP
      else None)"

text \<open>
  Lines 10--46. The result is the new state and the returned pointer (\<open>None\<close> for
  \<open>NULL\<close>); copying the caller's address reads \<open>IP_ADDR_LEN\<close> bytes of it.
\<close>

definition net_init ::
  "protocol_enum \<Rightarrow> init_env \<Rightarrow> net_state \<Rightarrow> string \<Rightarrow> bytes \<Rightarrow> u16 \<Rightarrow> int \<Rightarrow>
   fault + (net_state \<times> nat option)" where
  "net_init pe env st interface src_ip' port' protocol' =
     (case malloc_result env of
        None \<Rightarrow> Inr (st, None)
      | Some (a, garbage) \<Rightarrow>
          let hid = hw_init_result env;
              st1 = st\<lparr>heap := (heap st)(a \<mapsto> garbage\<lparr>session_id := hid\<rparr>)\<rparr>
          in if hid = -1 then Inr (st1\<lparr>heap := (heap st1)(a := None)\<rparr>, None)
             else
               let st2 = st1\<lparr>open_links := insert hid (open_links st1)\<rparr>
               in case if_addr_result env of
                    None \<Rightarrow> ebind (net_free (hw_free_result env) st2 a) (\<lambda>(st3, _). Inr (st3, None))
                  | Some mac \<Rightarrow>
                      if length src_ip' < IP_ADDR_LEN then Inl Overrun_read
                      else
                        let s = garbage\<lparr>session_id := hid, src_addr := mac,
                                        src_ip := take IP_ADDR_LEN src_ip', port := port'\<rparr>
                        in case resolve_protocol pe protocol' of
                             Some ipp \<Rightarrow> Inr (st2\<lparr>heap := (heap st2)(a \<mapsto> s\<lparr>protocol := ipp\<rparr>)\<rparr>, Some a)
                           | None \<Rightarrow>
                               let st4 = st2\<lparr>heap := (heap st2)(a \<mapsto> s)\<rparr>
                               in ebind (net_free (hw_free_result env) st4 a) (\<lambda>(st5, _). Inr (st5, None)))"

section \<open>Dispatch\<close>

text \<open>
  Lines 55--66 and 68--79: the switch compares the stored protocol number with the
  \<open>protocol_t\<close> enumerators; the datagram branch and the default return 0 and touch
  nothing.
\<close>

definition net_send ::
  "protocol_enum \<Rightarrow> ('t \<Rightarrow> session \<Rightarrow> bytes \<Rightarrow> size_t \<Rightarrow> 't \<times> size_t) \<Rightarrow>
   't \<Rightarrow> session \<Rightarrow> bytes \<Rightarrow> size_t \<Rightarrow> 't \<times> size_t" where
  "net_send pe tcp_send t s data data_len =
     (if protocol s = TCP pe then tcp_send t s data data_len
      else if protocol s = UDP pe then (t, 0)
      else (t, 0))"

definition net_recv ::
  "protocol_enum \<Rightarrow> ('t \<Rightarrow> session \<Rightarrow> size_t \<Rightarrow> 't \<times> size_t \<times> bytes) \<Rightarrow>
   't \<Rightarrow> session \<Rightarrow> size_t \<Rightarrow> 't \<times> size_t \<times> bytes" where
  "net_recv pe tcp_recv t s buffer_len =
     (if protocol s = TCP pe then tcp_recv t s buffer_len
      else if protocol s = UDP pe then (t, 0, [])
      else (t, 0, []))"

section \<open>The environment, the session record and the system's transitions\<close>

text \<open>
  \<open>malloc\<close> returns an address that is not live and \<open>hw_init\<close> a handle that is not
  open: the assumptions on the external calls under which \<open>net_init\<close> is judged.
\<close>

definition env_fresh :: "init_env \<Rightarrow> net_state \<Rightarrow> bool" where
  "env_fresh env st \<longleftrightarrow>
     (case malloc_result env of None \<Rightarrow> True | Some (a, _) \<Rightarrow> heap st a = None) \<and>
     hw_init_result env \<notin> open_links st"

text \<open>The session that lines 16--30 fill in, before the protocol is stored.\<close>

definition init_session :: "init_env \<Rightarrow> session \<Rightarrow> bytes \<Rightarrow> bytes \<Rightarrow> u16 \<Rightarrow> session" where
  "init_session env g mac ip port' =
     g\<lparr>session_id := hw_init_result env, src_addr := mac, src_ip := take IP_ADDR_LEN ip, port := port'\<rparr>"

text \<open>
  Ownership of link handles: the open handles are exactly the handles of the live
  sessions, and no two live sessions share a handle.
\<close>

definition links_owned :: "net_state \<Rightarrow> bool" where
  "links_owned st \<longleftrightarrow>
     open_links st = session_id ` ran (heap st) \<and>
     (\<forall>a b s t. heap st a = Some s \<longrightarrow> heap st b = Some t \<longrightarrow> session_id s = session_id t \<longrightarrow> a = b)"

text \<open>
  The system's transitions: a \<open>net_init\<close> that returns (with a session or with
  \<open>NULL\<close>), and a \<open>net_free\<close> of a live session. \<open>net_send\<close> and
  \<open>net_recv\<close> do not change this state.
\<close>

inductive net_step :: "protocol_enum \<Rightarrow> net_state \<Rightarrow> net_state \<Rightarrow> bool" for pe where
  init: "env_fresh env st \<Longrightarrow> net_init pe env st iface ip port' proto' = Inr (st', r) \<Longrightarrow> net_step pe st st'"
| free: "net_free rc st a = Inr (st', rc') \<Longrightarrow> net_step pe st st'"

definition net_empty :: net_state where
  "net_empty = \<lparr>heap = Map.empty, open_links = {}\<rparr>"

inductive reachable :: "protocol_enum \<Rightarrow> net_state \<Rightarrow> bool" for pe where
  empty: "reachable pe net_empty"
| step: "reachable pe st \<Longrightarrow> net_step pe st st' \<Longrightarrow> reachable pe st'"

section \<open>\<open>net_init\<close> branch by branch\<close>

lemma net_free_undo:
  assumes "heap st a = None" and "session_id s \<notin> open_links st"
  shows "net_free r (st\<lparr>heap := (heap st)(a \<mapsto> s), open_links := insert (session_id s) (open_links st)\<rparr>) a = Inr (st, r)"
  using assms by (simp add: net_free_def fun_upd_idem Diff_insert_absorb)

lemma net_init_no_mem:
  "malloc_result env = None \<Longrightarrow> net_init pe env st iface ip port' proto' = Inr (st, None)"
  by (simp add: net_init_def)

lemma net_init_hw_fail:
  "malloc_result env = Some (a, g) \<Longrightarrow> heap st a = None \<Longrightarrow> hw_init_result env = -1 \<Longrightarrow>
   net_init pe env st iface ip port' proto' = Inr (st, None)"
  by (simp add: net_init_def fun_upd_idem)

lemma net_init_addr_fail:
  assumes "malloc_result env = Some (a, g)" "heap st a = None" "hw_init_result env \<noteq> -1"
    "hw_init_result env \<notin> open_links st" "if_addr_result env = None"
  shows "net_init pe env st iface ip port' proto' = Inr (st, None)"
  using assms net_free_undo [of st a "g\<lparr>session_id := hw_init_result env\<rparr>" "hw_free_result env"]
  by (simp add: net_init_def Let_def)

lemma net_init_short_ip:
  "malloc_result env = Some (a, g) \<Longrightarrow> hw_init_result env \<noteq> -1 \<Longrightarrow> if_addr_result env = Some mac \<Longrightarrow>
   length ip < IP_ADDR_LEN \<Longrightarrow> net_init pe env st iface ip port' proto' = Inl Overrun_read"
  by (simp add: net_init_def Let_def)

lemma net_init_bad_proto:
  assumes "malloc_result env = Some (a, g)" "heap st a = None" "hw_init_result env \<noteq> -1"
    "hw_init_result env \<notin> open_links st" "if_addr_result env = Some mac"
    "IP_ADDR_LEN \<le> length ip" "resolve_protocol pe proto' = None"
  shows "net_init pe env st iface ip port' proto' = Inr (st, None)"
  using assms by (simp add: net_init_def Let_def net_free_def fun_upd_idem Diff_insert_absorb)

lemma net_init_ok:
  assumes "malloc_result env = Some (a, g)" "hw_init_result env \<noteq> -1"
    "if_addr_result env = Some mac" "IP_ADDR_LEN \<le> length ip" "resolve_protocol pe proto' = Some ipp"
  shows "net_init pe env st iface ip port' proto' =
           Inr (st\<lparr>heap := (heap st)(a \<mapsto> (init_session env g mac ip port')\<lparr>protocol := ipp\<rparr>),
                   open_links := insert (hw_init_result env) (open_links st)\<rparr>, Some a)"
  using assms by (simp add: net_init_def Let_def init_session_def)

lemma net_init_fresh:
  assumes "env_fresh env st"
  shows "net_init pe env st iface ip port' proto' =
    (case malloc_result env of
       None \<Rightarrow> Inr (st, None)
     | Some (a, g) \<Rightarrow>
         if hw_init_result env = -1 then Inr (st, None)
         else case if_addr_result env of
                None \<Rightarrow> Inr (st, None)
              | Some mac \<Rightarrow>
                  if length ip < IP_ADDR_LEN then Inl Overrun_read
                  else case resolve_protocol pe proto' of
                         None \<Rightarrow> Inr (st, None)
                       | Some ipp \<Rightarrow>
                           Inr (st\<lparr>heap := (heap st)(a \<mapsto> (init_session env g mac ip port')\<lparr>protocol := ipp\<rparr>),
                                   open_links := insert (hw_init_result env) (open_links st)\<rparr>, Some a))"
  using assms
  by (cases "hw_init_result env = -1")
    (auto simp add: env_fresh_def net_init_no_mem net_init_hw_fail net_init_addr_fail
      net_init_short_ip net_init_bad_proto net_init_ok not_less split: option.splits)

lemma net_init_success:
  assumes "env_fresh env st" and "net_init pe env st iface ip port' proto' = Inr (st', Some a)"
  shows "\<exists>g mac ipp. malloc_result env = Some (a, g) \<and> heap st a = None \<and>
           hw_init_result env \<noteq> -1 \<and> hw_init_result env \<notin> open_links st \<and>
           if_addr_result env = Some mac \<and> IP_ADDR_LEN \<le> length ip \<and>
           resolve_protocol pe proto' = Some ipp \<and>
           st' = st\<lparr>heap := (heap st)(a \<mapsto> (init_session env g mac ip port')\<lparr>protocol := ipp\<rparr>),
                   open_links := insert (hw_init_result env) (open_links st)\<rparr>"
  using assms(2) assms(1) unfolding net_init_fresh [OF assms(1)]
  by (auto simp add: env_fresh_def split: option.splits if_splits)

section \<open>Handle ownership is invariant\<close>

lemma links_owned_alloc:
  assumes "links_owned st" and "heap st a = None" and "session_id s \<notin> open_links st"
  shows "links_owned (st\<lparr>heap := (heap st)(a \<mapsto> s), open_links := insert (session_id s) (open_links st)\<rparr>)"
proof -
  have own: "open_links st = session_id ` ran (heap st)"
    and dist: "\<And>a b s t. heap st a = Some s \<Longrightarrow> heap st b = Some t \<Longrightarrow> session_id s = session_id t \<Longrightarrow> a = b"
    using assms(1) by (auto simp add: links_owned_def)
  have fresh: "session_id t \<noteq> session_id s" if "heap st b = Some t" for b t
  proof -
    have "t \<in> ran (heap st)" using that by (rule ranI)
    then have "session_id t \<in> open_links st" using own by simp
    then show ?thesis using assms(3) by auto
  qed
  have "ran ((heap st)(a \<mapsto> s)) = insert s (ran (heap st))"
    using assms(2) by (simp add: ran_map_upd)
  then show ?thesis
    using own dist fresh assms(2) unfolding links_owned_def
    by (auto split: if_splits) (metis fresh)+
qed

lemma links_ownedI:
  assumes "open_links st = session_id ` ran (heap st)"
    and "\<And>a b s t. heap st a = Some s \<Longrightarrow> heap st b = Some t \<Longrightarrow> session_id s = session_id t \<Longrightarrow> a = b"
  shows "links_owned st"
  unfolding links_owned_def using assms by blast

lemma links_owned_free:
  assumes "links_owned st" and "net_free rc st a = Inr (st', rc')"
  shows "links_owned st'"
proof -
  obtain s where s: "heap st a = Some s"
    and st': "st' = st\<lparr>open_links := open_links st - {session_id s}, heap := (heap st)(a := None)\<rparr>"
    using assms(2) by (auto simp add: net_free_def split: option.splits)
  have own: "open_links st = session_id ` ran (heap st)"
    and dist: "\<And>a b s t. heap st a = Some s \<Longrightarrow> heap st b = Some t \<Longrightarrow> session_id s = session_id t \<Longrightarrow> a = b"
    using assms(1) by (auto simp add: links_owned_def)
  let ?h = "(heap st)(a := None)"
  have sub: "heap st b = Some t" if "?h b = Some t" for b t
    using that by (simp split: if_splits)
  have other: "session_id t \<noteq> session_id s" if "?h b = Some t" for b t
  proof
    assume "session_id t = session_id s"
    then have "b = a" using dist [OF sub [OF that] s] by blast
    then show False using that by simp
  qed
  have img: "session_id ` ran ?h = session_id ` ran (heap st) - {session_id s}"
  proof (intro equalityI subsetI)
    fix x assume "x \<in> session_id ` ran ?h"
    then obtain b t where bt: "?h b = Some t" and x: "x = session_id t"
      by (auto simp add: ran_def)
    have "t \<in> ran (heap st)" using sub [OF bt] by (rule ranI)
    then have "session_id t \<in> session_id ` ran (heap st)" by (rule imageI)
    then show "x \<in> session_id ` ran (heap st) - {session_id s}"
      using x other [OF bt] by simp
  next
    fix x assume "x \<in> session_id ` ran (heap st) - {session_id s}"
    then obtain b t where bt: "heap st b = Some t" and x: "x = session_id t" and ne: "x \<noteq> session_id s"
      by (auto simp add: ran_def)
    have "b \<noteq> a" using bt s x ne by auto
    then have "?h b = Some t" using bt by simp
    then have "t \<in> ran ?h" by (rule ranI)
    then show "x \<in> session_id ` ran ?h" using x by blast
  qed
  have dist': "b = c" if "?h b = Some u" "?h c = Some t" "session_id u = session_id t" for b c u t
    using dist [OF sub [OF that(1)] sub [OF that(2)] that(3)] .
  show ?thesis
    unfolding st'
  proof (rule links_ownedI)
    show "open_links (st\<lparr>open_links := open_links st - {session_id s}, heap := ?h\<rparr>) =
        session_id ` ran (heap (st\<lparr>open_links := open_links st - {session_id s}, heap := ?h\<rparr>))"
      using img own by simp
  next
    show "b = c" if "heap (st\<lparr>open_links := open_links st - {session_id s}, heap := ?h\<rparr>) b = Some u"
      "heap (st\<lparr>open_links := open_links st - {session_id s}, heap := ?h\<rparr>) c = Some t"
      "session_id u = session_id t" for b c u t
      using dist' [of b u c t] that by simp
  qed
qed

lemma net_step_links_owned:
  assumes "net_step pe st st'" and "links_owned st"
  shows "links_owned st'"
  using assms
proof cases
  case (init env iface ip port' proto' r)
  show ?thesis
  proof (cases r)
    case None
    then have "st' = st"
      using init unfolding net_init_fresh [OF init(1)] by (auto split: option.splits if_splits)
    then show ?thesis using assms(2) by simp
  next
    case (Some a)
    then obtain g mac ipp where
      fresh: "heap st a = None" "hw_init_result env \<notin> open_links st" and
      st': "st' = st\<lparr>heap := (heap st)(a \<mapsto> (init_session env g mac ip port')\<lparr>protocol := ipp\<rparr>),
                   open_links := insert (hw_init_result env) (open_links st)\<rparr>"
      using init net_init_success [of env st pe iface ip port' proto' st' a] by blast
    have "links_owned (st\<lparr>heap := (heap st)(a \<mapsto> (init_session env g mac ip port')\<lparr>protocol := ipp\<rparr>),
        open_links := insert (session_id ((init_session env g mac ip port')\<lparr>protocol := ipp\<rparr>)) (open_links st)\<rparr>)"
      using assms(2) fresh by (intro links_owned_alloc) (simp_all add: init_session_def)
    then show ?thesis using st' by (simp add: init_session_def)
  qed
next
  case (free rc a rc')
  then show ?thesis using assms(2) links_owned_free by blast
qed

section \<open>Example states\<close>

text \<open>
  An interface with handle 5 and then a second one with handle 7, opened for the stream
  protocol under C's default numbering of \<open>protocol_t\<close>.
\<close>

definition example_pe :: protocol_enum where
  "example_pe = \<lparr>TCP = 0, UDP = 1\<rparr>"

definition example_ip :: bytes where
  "example_ip = [0xFE, 0x80, 0, 0, 0, 0, 0, 0, 0, 0, 0, 0, 0, 0, 0, 1]"

definition example_env :: "bytes option \<Rightarrow> init_env" where
  "example_env mac = \<lparr>malloc_result = Some (0, \<lparr>session_id = 0, src_addr = [], src_ip = [], port = 0, protocol = 0\<rparr>),
     hw_init_result = 5, if_addr_result = mac, hw_free_result = 0\<rparr>"

definition example_mac :: bytes where
  "example_mac = [2, 0, 0, 0, 0, 1]"

definition example_net :: net_state where
  "example_net = \<lparr>heap = [0 \<mapsto> \<lparr>session_id = 5, src_addr = example_mac, src_ip = example_ip, port = 80, protocol = 6\<rparr>],
     open_links = {5}\<rparr>"

definition example_env2 :: init_env where
  "example_env2 = \<lparr>malloc_result = Some (1, \<lparr>session_id = 0, src_addr = [], src_ip = [], port = 0, protocol = 0\<rparr>),
     hw_init_result = 7, if_addr_result = Some example_mac, hw_free_result = 0\<rparr>"

definition example_net2 :: net_state where
  "example_net2 = \<lparr>heap = [0 \<mapsto> \<lparr>session_id = 5, src_addr = example_mac, src_ip = example_ip, port = 80, protocol = 6\<rparr>,
                           1 \<mapsto> \<lparr>session_id = 7, src_addr = example_mac, src_ip = example_ip, port = 81, protocol = 6\<rparr>],
     open_links = {5, 7}\<rparr>"

lemmas example_defs = example_pe_def example_ip_def example_env_def example_mac_def

lemma net_init_example:
  "net_init example_pe (example_env (Some example_mac)) net_empty ''eth0'' example_ip 80 0 =
   Inr (example_net, Some 0)"
  by (simp add: net_init_def Let_def resolve_protocol_def example_defs net_empty_def example_net_def)

lemma reachable_example_net: "reachable example_pe example_net"
proof (rule reachable.step [OF reachable.empty])
  show "net_step example_pe net_empty example_net"
    by (rule net_step.init [OF _ net_init_example]) (simp add: env_fresh_def example_env_def net_empty_def)
qed

lemma net_step_example_net2: "net_step example_pe example_net example_net2"
proof (rule net_step.init)
  show "env_fresh example_env2 example_net"
    by (simp add: env_fresh_def example_env2_def example_net_def)
  show "net_init example_pe example_env2 example_net ''eth1'' example_ip 81 0 = Inr (example_net2, Some 1)"
    by (simp add: net_init_def Let_def resolve_protocol_def example_defs example_env2_def
        example_net_def example_net2_def insert_commute fun_upd_twist)
qed

lemma links_owned_example_net2: "links_owned example_net2"
proof -
  have "links_owned example_net"
    using net_step_links_owned [OF net_step.init [OF _ net_init_example]]
    by (simp add: links_owned_def net_empty_def env_fresh_def example_env_def)
  then show ?thesis by (rule net_step_links_owned [OF net_step_example_net2])
qed

section \<open>Properties of the session layer\<close>

text \<open>
  Claim C20. No resource leak on failure: when the external calls behave (a fresh
  address, a handle not already open), a \<open>net_init\<close> that returns \<open>NULL\<close> leaves the heap and
  the set of open link handles exactly as they were, whichever step failed.
\<close>

theorem net_init_failure_restores:
  assumes "env_fresh env st" and "net_init pe env st iface ip port' proto' = Inr (st', None)"
  shows "st' = st"
  using assms(2) unfolding net_init_fresh [OF assms(1)]
  by (auto split: option.splits if_splits)

theorem net_init_failure_restores_witness:
  "env_fresh (example_env None) net_empty \<and>
   net_init example_pe (example_env None) net_empty ''eth0'' example_ip 80 0 = Inr (net_empty, None)"
proof -
  have f: "env_fresh (example_env None) net_empty"
    by (simp add: env_fresh_def example_env_def net_empty_def)
  obtain st' r where r: "net_init example_pe (example_env None) net_empty ''eth0'' example_ip 80 0 = Inr (st', r)"
    by (simp add: net_init_def Let_def example_defs net_free_def net_empty_def)
  have "r = None"
    using r by (simp add: net_init_def Let_def example_defs net_free_def net_empty_def)
  then have "st' = net_empty"
    using net_init_failure_restores [OF f] r by simp
  then show ?thesis using f r \<open>r = None\<close> by simp
qed

text \<open>
  Claim C21. Requesting a protocol that is neither enumerator (the \<open>default\<close>
  branch of the switch, line 40) makes \<open>net_init\<close> return \<open>NULL\<close> with the state unchanged: the
  link handle it opened is closed again and the session freed.
\<close>

theorem net_init_unsupported_protocol:
  assumes "env_fresh env st" and "IP_ADDR_LEN \<le> length ip"
    and "proto' \<noteq> TCP pe" and "proto' \<noteq> UDP pe"
  shows "net_init pe env st iface ip port' proto' = Inr (st, None)"
  using assms(2-4) unfolding net_init_fresh [OF assms(1)]
  by (simp add: resolve_protocol_def split: option.split)

theorem net_init_unsupported_protocol_witness:
  "net_init example_pe (example_env (Some example_mac)) net_empty ''eth0'' example_ip 80 7 = Inr (net_empty, None)"
  by (rule net_init_unsupported_protocol)
    (simp_all add: env_fresh_def example_defs net_empty_def)

text \<open>
  Claim C22. When every step succeeds, \<open>net_init\<close> returns the allocated address
  and stores there a session holding the handle from \<open>hw_init\<close>, the link address from
  \<open>hw_if_addr\<close>, the first \<open>IP_ADDR_LEN\<close> bytes of the caller's address, the port and the
  IP protocol number of the requested protocol; the handle is now open.
\<close>

theorem net_init_stores_session:
  assumes "env_fresh env st" and "malloc_result env = Some (a, g)" and "hw_init_result env \<noteq> -1"
    and "if_addr_result env = Some mac" and "IP_ADDR_LEN \<le> length ip"
    and "resolve_protocol pe proto' = Some ipp"
  shows "\<exists>st' s. net_init pe env st iface ip port' proto' = Inr (st', Some a) \<and>
           heap st' = (heap st)(a \<mapsto> s) \<and> open_links st' = insert (hw_init_result env) (open_links st) \<and>
           session_id s = hw_init_result env \<and> src_addr s = mac \<and> src_ip s = take IP_ADDR_LEN ip \<and>
           port s = port' \<and> protocol s = ipp"
  using assms(2-6) unfolding net_init_fresh [OF assms(1)]
  by (simp add: init_session_def)
    (rule exI [where x = "(init_session env g mac ip port')\<lparr>protocol := ipp\<rparr>"], simp add: init_session_def)

theorem net_init_stores_session_witness:
  "\<exists>st' s. net_init example_pe (example_env (Some example_mac)) net_empty ''eth0'' example_ip 80 0 = Inr (st', Some 0) \<and>
     heap st' = [0 \<mapsto> s] \<and> open_links st' = {5} \<and> session_id s = 5 \<and> src_addr s = example_mac \<and>
     src_ip s = example_ip \<and> port s = 80 \<and> protocol s = IP_PROTOCOL_TCP"
  using net_init_stores_session [of "example_env (Some example_mac)" net_empty 0
      "\<lparr>session_id = 0, src_addr = [], src_ip = [], port = 0, protocol = 0\<rparr>" example_mac example_ip
      example_pe 0 IP_PROTOCOL_TCP "''eth0''" 80]
  by (simp add: env_fresh_def example_defs net_empty_def resolve_protocol_def)

text \<open>
  Claim C19. In every state reachable from the empty heap by \<open>net_init\<close> and
  \<open>net_free\<close> calls, the open link handles are exactly those of the live sessions and no
  two live sessions share a handle.
\<close>

theorem reachable_links_owned:
  "reachable pe st \<Longrightarrow> links_owned st"
proof (induction rule: reachable.induct)
  case empty
  show ?case by (simp add: links_owned_def net_empty_def)
next
  case (step st st')
  then show ?case using net_step_links_owned by blast
qed

theorem reachable_links_owned_witness:
  "links_owned example_net"
  using reachable_links_owned [OF reachable_example_net] .

text \<open>
  Claim C23. In a state where handles are owned, \<open>net_free\<close> of a live session
  frees it, closes its handle and leaves every other session and its handle in place.
\<close>

theorem net_free_closes_handle:
  assumes "links_owned st" and "heap st a = Some s"
  shows "\<exists>st'. net_free r st a = Inr (st', r) \<and> heap st' a = None \<and> session_id s \<notin> open_links st' \<and>
           (\<forall>b t. b \<noteq> a \<longrightarrow> heap st b = Some t \<longrightarrow> heap st' b = Some t \<and> session_id t \<in> open_links st')"
proof -
  have own: "open_links st = session_id ` ran (heap st)"
    and dist: "\<And>a b s t. heap st a = Some s \<Longrightarrow> heap st b = Some t \<Longrightarrow> session_id s = session_id t \<Longrightarrow> a = b"
    using assms(1) by (auto simp add: links_owned_def)
  have other: "session_id t \<in> open_links st - {session_id s}" if "b \<noteq> a" "heap st b = Some t" for b t
  proof -
    have "t \<in> ran (heap st)" using that(2) by (rule ranI)
    then have "session_id t \<in> open_links st" using own by simp
    moreover have "session_id t \<noteq> session_id s" using dist [OF that(2) assms(2)] that(1) by blast
    ultimately show ?thesis by simp
  qed
  show ?thesis
    using assms(2) other by (simp add: net_free_def)
qed

theorem net_free_closes_handle_witness:
  "\<exists>st'. net_free 0 example_net2 0 = Inr (st', 0) \<and> heap st' 0 = None \<and> 5 \<notin> open_links st' \<and>
     heap st' 1 = heap example_net2 1 \<and> 7 \<in> open_links st'"
proof -
  have h0: "heap example_net2 0 = Some \<lparr>session_id = 5, src_addr = example_mac, src_ip = example_ip, port = 80, protocol = 6\<rparr>"
    and h1: "heap example_net2 1 = Some \<lparr>session_id = 7, src_addr = example_mac, src_ip = example_ip, port = 81, protocol = 6\<rparr>"
    by (simp_all add: example_net2_def)
  obtain st' where f: "net_free 0 example_net2 0 = Inr (st', 0)" "heap st' 0 = None" "5 \<notin> open_links st'"
    and o: "\<forall>b t. b \<noteq> 0 \<longrightarrow> heap example_net2 b = Some t \<longrightarrow> heap st' b = Some t \<and> session_id t \<in> open_links st'"
    using net_free_closes_handle [OF links_owned_example_net2 h0, of 0] by auto
  have "heap st' 1 = heap example_net2 1 \<and> 7 \<in> open_links st'"
    using o [rule_format, OF _ h1] h1 by simp
  then show ?thesis using f by blast
qed

text \<open>
  Claim C24. A session created with the \<open>TCP\<close> enumerator stores
  \<open>IP_PROTOCOL_TCP\<close>, and \<open>net_send\<close>/\<open>net_recv\<close> compare that number with the
  enumerator: they reach the stream transport exactly when the enumerator \<open>TCP\<close> equals
  \<open>IP_PROTOCOL_TCP\<close>. With C's default numbering (\<open>TCP = 0\<close>) a stream session never
  reaches \<open>tcp_send\<close> or \<open>tcp_recv\<close>.
\<close>

theorem net_dispatch_tcp_session:
  assumes "env_fresh env st" and "net_init pe env st iface ip port' (TCP pe) = Inr (st', Some a)"
    and "heap st' a = Some s"
  shows "net_send pe tcp_send t s data n =
           (if TCP pe = IP_PROTOCOL_TCP then tcp_send t s data n else (t, 0)) \<and>
         net_recv pe tcp_recv t s len =
           (if TCP pe = IP_PROTOCOL_TCP then tcp_recv t s len else (t, 0, []))"
proof -
  obtain g mac ipp where r: "resolve_protocol pe (TCP pe) = Some ipp"
    and st': "st' = st\<lparr>heap := (heap st)(a \<mapsto> (init_session env g mac ip port')\<lparr>protocol := ipp\<rparr>),
                   open_links := insert (hw_init_result env) (open_links st)\<rparr>"
    using net_init_success [OF assms(1,2)] by blast
  have "protocol s = IP_PROTOCOL_TCP"
    using r st' assms(3) by (auto simp add: resolve_protocol_def)
  then show ?thesis
    by (auto simp add: net_send_def net_recv_def)
qed

theorem net_dispatch_tcp_session_witness:
  "net_send example_pe (\<lambda>t s data n. (Suc t, n)) (0 :: nat)
     \<lparr>session_id = 5, src_addr = example_mac, src_ip = example_ip, port = 80, protocol = 6\<rparr> [1, 2, 3] 3 = (0, 0) \<and>
   net_recv example_pe (\<lambda>t s len. (Suc t, 1, [0x2A])) (0 :: nat)
     \<lparr>session_id = 5, src_addr = example_mac, src_ip = example_ip, port = 80, protocol = 6\<rparr> 1 = (0, 0, [])"
proof -
  have f: "env_fresh (example_env (Some example_mac)) net_empty"
    by (simp add: env_fresh_def example_env_def net_empty_def)
  have i: "net_init example_pe (example_env (Some example_mac)) net_empty ''eth0'' example_ip 80 (TCP example_pe) =
           Inr (example_net, Some 0)"
    using net_init_example by (simp add: example_pe_def)
  have h: "heap example_net 0 = Some \<lparr>session_id = 5, src_addr = example_mac, src_ip = example_ip, port = 80, protocol = 6\<rparr>"
    by (simp add: example_net_def)
  show ?thesis
    using net_dispatch_tcp_session [OF f i h, of "\<lambda>t s data n. (Suc t, n)" 0 "[1, 2, 3]" 3
        "\<lambda>t s len. (Suc t, 1, [0x2A])" 1]
    by (simp add: example_pe_def)
qed

text \<open>
  Claim C25. For a session whose stored protocol is not the \<open>TCP\<close> enumerator
  (the datagram stub and the \<open>default\<close> branch), \<open>net_send\<close> and \<open>net_recv\<close> return
  0 and no bytes and leave the transport's state untouched.
\<close>

theorem net_stub_noop:
  assumes "protocol s \<noteq> TCP pe"
  shows "net_send pe tcp_send t s data n = (t, 0) \<and> net_recv pe tcp_recv t s len = (t, 0, [])"
  using assms by (simp add: net_send_def net_recv_def)

theorem net_stub_noop_witness:
  "net_send example_pe (\<lambda>t s data n. (Suc t, n)) (0 :: nat)
     \<lparr>session_id = 5, src_addr = example_mac, src_ip = example_ip, port = 80, protocol = IP_PROTOCOL_UDP\<rparr> [1] 1 = (0, 0) \<and>
   net_recv example_pe (\<lambda>t s len. (Suc t, 1, [0x2A])) (0 :: nat)
     \<lparr>session_id = 5, src_addr = example_mac, src_ip = example_ip, port = 80, protocol = IP_PROTOCOL_UDP\<rparr> 1 = (0, 0, [])"
  using net_stub_noop [of "\<lparr>session_id = 5, src_addr = example_mac, src_ip = example_ip, port = 80, protocol = IP_PROTOCOL_UDP\<rparr>"
      example_pe "\<lambda>t s data n. (Suc t, n)" 0 "[1]" 1 "\<lambda>t s len. (Suc t, 1, [0x2A])" 1]
  by (simp add: example_pe_def)

end
