(* ===== verification/Spec2Isabelle.thy ===== *)
theory Spec2Isabelle
  imports Transmit Checksum Receive Session
begin

text \<open>
  \<^bold>\<open>A model of the IPv6 layer and session layer of \<open>kzemek/tcpip\<close>.\<close>

  The repository's sources are two C files. \<open>src/src/ip.c\<close> is the network layer:
  \<open>ip_send\<close> builds a 40-byte IPv6 header in front of the payload in a stack buffer
  (\<open>ip_packet_t\<close>), resolves the link address with \<open>ip_to_hw\<close> and hands the frame to
  the link's \<open>eth_send\<close> in a loop that retries after partial sends; \<open>ip_recv\<close> takes
  one frame from \<open>eth_recv\<close> and strips the header; \<open>ip_chksum\<close> builds a pseudo header
  (\<open>pseudo_packet_t\<close>) and folds \<open>add_with_carry\<close> over it. \<open>src/src/net.c\<close> is the
  session layer: \<open>net_init\<close> allocates a \<open>session_t\<close> and opens a link handle,
  \<open>net_free\<close> closes and frees it, \<open>net_send\<close>/\<open>net_recv\<close> dispatch on the stored
  protocol to the TCP handlers. The headers (\<open>ip.h\<close>, \<open>net.h\<close>, \<open>hw.h\<close>, \<open>tcp.h\<close>),
  the link layer and TCP are not in the sources.

  \<^bold>\<open>Theories.\<close>
  \<^item> \<open>Prelude\<close>: the C integer types as words (\<open>byte\<close>, \<open>u16\<close>, \<open>u32\<close>, \<open>size_t\<close> =
    64-bit), the layout constants (\<open>IP_ADDR_LEN\<close> 16, \<open>IP_HEADER_LEN\<close> 40,
    \<open>IP_PACKET_MAX_LEN\<close> 1500, \<open>IP_DATA_MAX_LEN\<close> 1460, protocol numbers 6 and 17;
    \<open>ip.h\<close> is absent: the header length and the protocol numbers are the IPv6 and
    IANA values the specification refers to, and 1500 is the Ethernet MTU, an assumption,
    since the specification names the maximum but gives no value; the thresholds in C6
    and C12 and the buffer bounds depend on it), \<open>session_t\<close> as a record, the
    \<open>fault\<close> datatype for undefined behaviour, and a byte-addressed buffer model in which
    \<open>memcpy\<close> and \<open>memmove\<close> check their bounds.
  \<^item> \<open>Packet\<close>: the header stores of \<open>ip_send\<close> (lines 42--54) as \<open>ip_build\<close>, the
    intended layout \<open>ip_header\<close>, and \<open>ip_to_hw\<close> (lines 32--37).
  \<^item> \<open>Transmit\<close>: one iteration of the send loop (\<open>ip_send_body\<close>, lines 64--73), the
    loop (\<open>ip_send_loop\<close>, lines 60--77) and \<open>ip_send\<close>. The loop state is the
    record \<open>tx\<close> of the buffer, \<open>data_left\<close>, the link's state and the calls made.
    \<open>hdr_kept\<close> is the loop invariant that the header survives every retry.
  \<^item> \<open>Checksum\<close>: \<open>pseudo_build\<close> (lines 124--130), \<open>add_with_carry\<close> (112--116),
    \<open>chksum_loop\<close> (132--134), \<open>ip_chksum\<close> (118--137); \<open>oc_sum\<close> is the one's
    complement sum of the RFC that the code is meant to compute.
  \<^item> \<open>Receive\<close>: \<open>ip_recv\<close> (lines 80--92).
  \<^item> \<open>Session\<close>: \<open>net_init\<close>, \<open>net_free\<close>, \<open>net_send\<close>, \<open>net_recv\<close> over a state of
    live allocations and open link handles, and the transition system \<open>net_step\<close> with
    its reachable states.
  \<^item> This theory: the round trip through \<open>ip_send\<close> and \<open>ip_recv\<close>.

  \<^bold>\<open>External parts.\<close> The link is a function of a state of its own: \<open>eth_send\<close>
  returns its new state and the count it reports, \<open>eth_recv\<close> its new state and the
  frame. The outcomes of \<open>malloc\<close>, \<open>hw_init\<close>, \<open>hw_if_addr\<close> and \<open>hw_free\<close> in one
  \<open>net_init\<close> are an argument (\<open>init_env\<close>), the TCP handlers are functions on a
  transport state, and the values of the \<open>protocol_t\<close> enumerators are a parameter
  (\<open>protocol_enum\<close>). Every property holds for all of them unless it says otherwise.
  Two assumptions on the externals are built in: \<open>hw_free\<close> closes the handle whatever
  status it returns, and \<open>eth_send\<close> reads exactly the \<open>packet_len\<close> bytes it is given
  (a frame longer than the 1500-byte buffer is an overrun).
  Uninitialised stack buffers are arbitrary functions, so no property depends on their
  content except where it says so. \<open>uint16_t\<close> loads are little-endian.

  \<^bold>\<open>Partiality.\<close> The send loop stops only when the link reports 0 or the payload is
  gone, so it is a \<open>partial_function (option)\<close>: \<open>None\<close> is non-termination, proved
  for a link that reports exactly the header length (C5), and termination is proved
  for every link that reports 0, or more than the header, on each call (C4). The loop
  in \<open>ip_chksum\<close> runs over a list of words and is structural.

  \<^bold>\<open>Properties.\<close> C1--C7 (\<open>Transmit\<close>): a whole-frame send; the shift after a
  partial send (by \<open>sent\<close>, header included, not by the payload bytes sent); every
  retry re-sends the complete header (an invariant of the loop, by fixpoint induction);
  termination and divergence; the link failure that overruns the buffer; the result is
  0 or the clamped length. C8--C13 (\<open>Checksum\<close>): \<open>ip_chksum\<close> is the complement of
  the one's complement sum (a refinement of the code's fold to the arithmetic sum); the
  checksum verifies; its all-ones case returns 0; an odd last byte is ignored; a long
  payload overflows; \<open>add_with_carry\<close> is one's complement addition. C14--C17
  (\<open>Receive\<close>): header stripping, runt frames, no frame, a payload longer than the
  caller's buffer. C18 (here): send then receive gives back the payload. C19--C25
  (\<open>Session\<close>): handle ownership is invariant over reachable states (rule induction),
  failed initialisation leaks nothing, unsupported protocols, the stored session,
  teardown, and dispatch, whose comparison of the stored IP protocol number with the
  enumerator sends every stream session to the no-op branch under the default
  enumerator values.

  \<^bold>\<open>Not modelled.\<close> The link layer and TCP (not in the sources; parameters here),
  the byte-level behaviour of \<open>hw_if_addr\<close> beyond the address it returns, and
  concurrency (the code has none).
\<close>

section \<open>Send and receive\<close>

text \<open>
  Claim C18. Over a link that takes whole frames, the frame \<open>ip_send\<close> transmits,
  handed to \<open>ip_recv\<close> by a receiving link, yields the value \<open>ip_send\<close> returned and
  the payload it was given, clamped to that length: the codec's header and the
  receiver's stripping agree.
\<close>

theorem send_recv_roundtrip:
  assumes ok: "build_args_ok s dst_ip data (min n (of_nat IP_DATA_MAX_LEN))"
    and whole: "\<forall>l hw f. snd (eth l hw f) = of_nat (length f)"
    and sent: "ip_send eth l m s dst_ip proto data n = Some (Inr (l', r, cs))"
    and cap: "unat r \<le> cap"
  shows "ip_recv (\<lambda>_. (lr', fst (last cs))) lr m' cap = Inr (lr', r, take (unat r) data)"
proof -
  let ?n = "min n (of_nat IP_DATA_MAX_LEN) :: size_t"
  let ?F = "sent_frame s dst_ip proto data ?n"
  let ?hw = "snd (ip_to_hw dst_ip)"
  obtain p where fr: "frame_of \<lparr>tx_packet = p, data_left = ?n, link = l, calls = []\<rparr> = ?F"
    and start: "ip_send eth l m s dst_ip proto data n =
             map_option (map_sum id (\<lambda>st. (link st, if data_left st = 0 then ?n else 0, calls st)))
               (ip_send_loop eth ?hw \<lparr>tx_packet = p, data_left = ?n, link = l, calls = []\<rparr>)"
    using ip_send_start [OF ok, of l proto eth m] by blast
  have small: "unat ?n \<le> IP_DATA_MAX_LEN" using ok by (simp add: build_args_ok_def)
  have lenF: "length ?F = IP_HEADER_LEN + unat ?n"
    using ok by (rule length_sent_frame)
  have call: "eth l ?hw ?F = (fst (eth l ?hw ?F), of_nat (IP_HEADER_LEN + unat ?n))"
    using whole lenF by (metis prod.collapse)
  have body: "ip_send_body eth ?hw \<lparr>tx_packet = p, data_left = ?n, link = l, calls = []\<rparr> =
     Inr (\<lparr>tx_packet = p, data_left = 0, link = fst (eth l ?hw ?F),
            calls = [(?F, of_nat (IP_HEADER_LEN + unat ?n))]\<rparr>, of_nat (IP_HEADER_LEN + unat ?n))"
    using ip_send_body_all_sent [of "\<lparr>tx_packet = p, data_left = ?n, link = l, calls = []\<rparr>"
        eth ?hw "fst (eth l ?hw ?F)"] small call fr by simp
  have "ip_send eth l m s dst_ip proto data n =
          Some (Inr (fst (eth l ?hw ?F), ?n, [(?F, of_nat (IP_HEADER_LEN + unat ?n))]))"
    using start body by (simp add: ip_send_loop.simps)
  with sent have "(l', r, cs) = (fst (eth l ?hw ?F), ?n, [(?F, of_nat (IP_HEADER_LEN + unat ?n))])"
    by (simp only: option.inject sum.inject)
  then have r: "r = ?n" and cs: "cs = [(?F, of_nat (IP_HEADER_LEN + unat ?n))]"
    by blast+
  have hdr: "?F = ip_header (take IP_ADDR_LEN (src_ip s)) (take IP_ADDR_LEN dst_ip) proto (ucast ?n) @
                  take (unat ?n) data"
    by (simp add: sent_frame_def)
  have hlen: "length (ip_header (take IP_ADDR_LEN (src_ip s)) (take IP_ADDR_LEN dst_ip) proto (ucast ?n)) = IP_HEADER_LEN"
    using ok by (simp add: build_args_ok_def)
  have dlen: "length (take (unat ?n) data) = unat ?n"
    using ok by (simp add: build_args_ok_def)
  have "ip_recv (\<lambda>_. (lr', ?F)) lr m' cap =
          Inr (lr', of_nat (length ?F - IP_HEADER_LEN), drop IP_HEADER_LEN ?F)"
    using lenF small cap r by (intro ip_recv_frame) simp_all
  then show ?thesis
    using cs r hdr hlen dlen lenF by simp
qed

lemma send_recv_roundtrip_witness:
  "build_args_ok example_session example_dst [7, 8, 9] (min 3 (of_nat IP_DATA_MAX_LEN)) \<and>
   (\<forall>l hw f. snd ((\<lambda>l hw f. (Suc l, of_nat (length f) :: size_t)) l hw f) = of_nat (length f)) \<and>
   ip_send (\<lambda>l hw f. (Suc l, of_nat (length f))) 0 (\<lambda>_. 0) example_session example_dst 6 [7, 8, 9] 3 =
     Some (Inr (1, 3, [([0x60, 0, 0, 0, 0, 3, 6, 64] @ src_ip example_session @ example_dst @ [7, 8, 9], 43)])) \<and>
   unat (3 :: size_t) \<le> 3 \<and>
   ip_recv (\<lambda>_. ((), fst (last [([0x60, 0, 0, 0, 0, 3, 6, 64] @ src_ip example_session @ example_dst @ [7, 8, 9],
       43 :: size_t)]))) () (\<lambda>_. 0) 3 = Inr ((), 3, [7, 8, 9])"
proof -
  have ok: "build_args_ok example_session example_dst [7, 8, 9] (min 3 (of_nat IP_DATA_MAX_LEN))"
    by (simp add: build_args_ok_def example_session_def example_dst_def)
  have w: "\<forall>l hw f. snd ((\<lambda>l hw f. (Suc l, of_nat (length f) :: size_t)) l hw f) = of_nat (length f)"
    by simp
  have snd: "ip_send (\<lambda>l hw f. (Suc l, of_nat (length f))) 0 (\<lambda>_. 0) example_session example_dst 6 [7, 8, 9] 3 =
     Some (Inr (1, 3, [([0x60, 0, 0, 0, 0, 3, 6, 64] @ src_ip example_session @ example_dst @ [7, 8, 9], 43)]))"
    by (simp add: ip_send_def ip_build_def memcpy_to_def Let_def ip_to_hw_def ip_send_loop.simps
        ip_send_body_def memmove_in_def mem_read_def mem_write_def htonl_bytes_def htons_bytes_def
        upt_rec example_session_def example_dst_def)
  have c: "unat (3 :: size_t) \<le> 3" by simp
  show ?thesis
    using send_recv_roundtrip [OF ok w snd c, of "()" "()" "\<lambda>_. 0"] ok w snd c by simp
qed

end
